theory Spec2Isabelle
  imports Complex_Main "HOL-Library.AList"
begin

section \<open>JavaScript values\<close>

text \<open>
  The values that travel through the ledger store are JSON data. A value that may also be
  \<^verbatim>\<open>undefined\<close> (a missing property, a missing argument) is a \<open>json option\<close>,
  with \<open>None\<close> for \<^verbatim>\<open>undefined\<close>. A finite number is the rational that its text
  denotes; the numbers that are not finite are \<^verbatim>\<open>NaN\<close>, \<^verbatim>\<open>Infinity\<close> and
  \<^verbatim>\<open>-Infinity\<close>. The pairs of an object are in the order of enumeration, and its keys
  are taken to be distinct.
\<close>

datatype nonfinite = NaN | PosInfinity | NegInfinity

datatype json =
    JNull
  | JBool bool
  | JNum rat
  | JNonFinite nonfinite
  | JStr string
  | JArr "json list"
  | JObj "(string \<times> json) list"

datatype exn = SyntaxError | TypeError | QuotaExceededError

text \<open>Truthiness, as \<^verbatim>\<open>!x\<close>, \<^verbatim>\<open>x || y\<close> and \<^verbatim>\<open>x && y\<close> test it.\<close>

fun truthy :: "json option \<Rightarrow> bool" where
  "truthy None = False"
| "truthy (Some JNull) = False"
| "truthy (Some (JBool b)) = b"
| "truthy (Some (JNum n)) = (n \<noteq> 0)"
| "truthy (Some (JNonFinite x)) = (x \<noteq> NaN)"
| "truthy (Some (JStr s)) = (s \<noteq> [])"
| "truthy (Some (JArr xs)) = True"
| "truthy (Some (JObj kvs)) = True"

text \<open>\<^verbatim>\<open>x || d\<close> with a default \<open>d\<close> that is never \<^verbatim>\<open>undefined\<close>.\<close>

definition js_or :: "json option \<Rightarrow> json \<Rightarrow> json" where
  "js_or x d = (case x of Some v \<Rightarrow> if truthy x then v else d | None \<Rightarrow> d)"

fun Array_isArray :: "json option \<Rightarrow> bool" where
  "Array_isArray (Some (JArr xs)) = True"
| "Array_isArray _ = False"

text \<open>
  Reading a property. On \<^verbatim>\<open>null\<close> and \<^verbatim>\<open>undefined\<close> it throws a TypeError; on an
  object it looks the key up; arrays and strings have their \<^verbatim>\<open>length\<close>; every other
  read gives \<^verbatim>\<open>undefined\<close>. The program reads the properties \<^verbatim>\<open>transactions\<close>,
  \<^verbatim>\<open>categories\<close> and \<^verbatim>\<open>length\<close> only.
\<close>

fun get_prop :: "json option \<Rightarrow> string \<Rightarrow> exn + json option" where
  "get_prop None k = Inl TypeError"
| "get_prop (Some JNull) k = Inl TypeError"
| "get_prop (Some (JObj kvs)) k = Inr (map_of kvs k)"
| "get_prop (Some (JArr xs)) k =
     Inr (if k = ''length'' then Some (JNum (of_nat (length xs))) else None)"
| "get_prop (Some (JStr s)) k =
     Inr (if k = ''length'' then Some (JNum (of_nat (length s))) else None)"
| "get_prop (Some (JBool b)) k = Inr None"
| "get_prop (Some (JNum n)) k = Inr None"
| "get_prop (Some (JNonFinite x)) k = Inr None"

text \<open>Sequencing of evaluations that may throw.\<close>

definition andThen :: "exn + 'a \<Rightarrow> ('a \<Rightarrow> exn + 'b) \<Rightarrow> exn + 'b" where
  "andThen m f = (case m of Inl e \<Rightarrow> Inl e | Inr x \<Rightarrow> f x)"

text \<open>
  An object literal that is handed to \<^verbatim>\<open>JSON.stringify\<close>: a property whose value is
  \<^verbatim>\<open>undefined\<close> is left out of the text.
\<close>

definition object_literal :: "(string \<times> json option) list \<Rightarrow> json" where
  "object_literal kvs = JObj (List.map_filter (\<lambda>(k, v). map_option (Pair k) v) kvs)"

text \<open>
  The own properties that \<^verbatim>\<open>{...data}\<close> copies, in the order of enumeration: those of
  an object, the index properties of an array and of a string, none otherwise.
\<close>

fun decimal :: "nat \<Rightarrow> string" where
  "decimal n =
     (if n < 10 then [''0123456789'' ! n]
      else decimal (n div 10) @ [''0123456789'' ! (n mod 10)])"

fun index_props :: "nat \<Rightarrow> json list \<Rightarrow> (string \<times> json) list" where
  "index_props i [] = []"
| "index_props i (x # xs) = (decimal i, x) # index_props (Suc i) xs"

fun spread :: "json option \<Rightarrow> (string \<times> json) list" where
  "spread (Some (JObj kvs)) = kvs"
| "spread (Some (JArr xs)) = index_props 0 xs"
| "spread (Some (JStr s)) = index_props 0 (map (\<lambda>c. JStr [c]) s)"
| "spread _ = []"

section \<open>The records of the satellite stores\<close>

text \<open>
  The interfaces of the notification log (utils/notifications.ts), of the auto-export
  scheduler (\<^verbatim>\<open>AutoDownloadSettings\<close>, which follows it in that file) and of the usage
  tracker (\<^verbatim>\<open>LiveTrackingData\<close>, in unnamed/part_001). The field
  \<^verbatim>\<open>id\<close> is \<open>id_n\<close> and \<^verbatim>\<open>type\<close> is \<open>type_n\<close> here. Counters and times in
  milliseconds are integers.
\<close>

datatype notification_type = Success | Info | Warning | Reminder

record AppNotification =
  id_n :: string
  title :: string
  message :: string
  type_n :: notification_type
  timestamp :: string
  read :: bool

record NotificationSettings =
  weeklyReminders :: bool
  monthlyReminders :: bool
  transactionNotifications :: bool

datatype export_format = Json | Csv

record AutoDownloadSettings =
  enabled :: bool
  lastDownload :: string
  downloadInterval :: int
  format :: export_format

record LiveTrackingData =
  sessionStart :: string
  totalSessions :: int
  transactionsAdded :: int
  transactionsEdited :: int
  transactionsDeleted :: int
  exportsPerformed :: int
  importsPerformed :: int
  lastActivity :: string
  dailyUsage :: "string \<rightharpoonup> int"

datatype activity = Add | Edit | Delete | Export | Import

section \<open>The platform and the browser state\<close>

datatype area = Local | Session

datatype event =
    ConsoleError string
  | ConsoleWarn string
  | Alert string
  | SystemNotification string string
  | Download string string

text \<open>
  What the program takes from its platform.
  \<^item> The JSON codec: \<^verbatim>\<open>JSON.parse\<close>, which throws on a text it cannot read,
    \<^verbatim>\<open>JSON.stringify(v)\<close> and the indented \<^verbatim>\<open>JSON.stringify(v, null, 2)\<close>. Where the
    program reads the parsed value at a declared interface, the codec is taken at that
    interface: the text fails to parse or holds a value of the interface.
  \<^item> \<open>ToString\<close>: the text of a value inside a template literal.
  \<^item> \<open>Date_getTime\<close>: \<^verbatim>\<open>new Date(text).getTime()\<close>, with \<open>None\<close> for \<^verbatim>\<open>NaN\<close>
    (a text that is no date).
  \<^item> \<open>quota_exceeded\<close>: the writes that the storage refuses; \<^verbatim>\<open>setItem\<close> throws on them.
    Whether a write is refused is taken to depend on the storage area, the key and the
    text.
  \<^item> \<open>Notification_permission\<close>: \<^verbatim>\<open>Notification.permission\<close>.
\<close>

record platform =
  JSON_parse :: "string \<Rightarrow> exn + json"
  JSON_stringify :: "json \<Rightarrow> string"
  JSON_stringify_pretty :: "json \<Rightarrow> string"
  ToString :: "json option \<Rightarrow> string"
  parse_notifications :: "string \<Rightarrow> exn + AppNotification list"
  stringify_notifications :: "AppNotification list \<Rightarrow> string"
  parse_settings :: "string \<Rightarrow> exn + AutoDownloadSettings"
  parse_tracking :: "string \<Rightarrow> exn + LiveTrackingData"
  stringify_tracking :: "LiveTrackingData \<Rightarrow> string"
  Date_getTime :: "string \<Rightarrow> int option"
  quota_exceeded :: "area \<Rightarrow> string \<Rightarrow> string \<Rightarrow> bool"
  Notification_permission :: string

record world =
  localStorage :: "string \<rightharpoonup> string"
  sessionStorage :: "string \<rightharpoonup> string"
  events :: "event list"

definition emit :: "event \<Rightarrow> world \<Rightarrow> world" where
  "emit e w = w\<lparr>events := events w @ [e]\<rparr>"

definition console_error :: "string \<Rightarrow> world \<Rightarrow> world" where
  "console_error msg w = emit (ConsoleError msg) w"

definition console_warn :: "string \<Rightarrow> world \<Rightarrow> world" where
  "console_warn msg w = emit (ConsoleWarn msg) w"

definition alert :: "string \<Rightarrow> world \<Rightarrow> world" where
  "alert msg w = emit (Alert msg) w"

definition getItem :: "area \<Rightarrow> string \<Rightarrow> world \<Rightarrow> string option" where
  "getItem a k w = (case a of Local \<Rightarrow> localStorage w k | Session \<Rightarrow> sessionStorage w k)"

text \<open>The effect of a write that the storage accepts.\<close>

definition put :: "area \<Rightarrow> string \<Rightarrow> string \<Rightarrow> world \<Rightarrow> world" where
  "put a k v w =
     (case a of
        Local \<Rightarrow> w\<lparr>localStorage := (localStorage w)(k \<mapsto> v)\<rparr>
      | Session \<Rightarrow> w\<lparr>sessionStorage := (sessionStorage w)(k \<mapsto> v)\<rparr>)"

text \<open>
  A statement that may throw ends in \<open>Inr\<close> of the state it reaches, or in \<open>Inl\<close> of the
  exception together with the state at the throw: what was written before stays written.
\<close>

definition setItem :: "platform \<Rightarrow> area \<Rightarrow> string \<Rightarrow> string \<Rightarrow> world \<Rightarrow> (exn \<times> world) + world" where
  "setItem P a k v w =
     (if quota_exceeded P a k v then Inl (QuotaExceededError, w) else Inr (put a k v w))"

definition seq :: "(exn \<times> 's) + 's \<Rightarrow> ('s \<Rightarrow> (exn \<times> 's) + 's) \<Rightarrow> (exn \<times> 's) + 's" where
  "seq m f = (case m of Inl ew \<Rightarrow> Inl ew | Inr w \<Rightarrow> f w)"

text \<open>\<^verbatim>\<open>if (stored)\<close> on what \<^verbatim>\<open>getItem\<close> gave: \<^verbatim>\<open>null\<close> and the empty string are falsy.\<close>

definition present :: "string option \<Rightarrow> string option" where
  "present stored = (case stored of None \<Rightarrow> None | Some s \<Rightarrow> if s = [] then None else Some s)"

section \<open>The ledger store (utils/storage.ts)\<close>

definition STORAGE_KEY :: string where
  "STORAGE_KEY = ''decoricks-finance-data''"

definition BACKUP_KEY :: string where
  "BACKUP_KEY = ''decoricks-finance-backup''"

definition SESSION_KEY :: string where
  "SESSION_KEY = ''decoricks-finance-session''"

definition META_KEY :: string where
  "META_KEY = ''decoricks-finance-meta''"

subsection \<open>loadData\<close>

text \<open>
  The object literal
  \<^verbatim>\<open>{ transactions: x.transactions || [], categories: x.categories || DEFAULT_CATEGORIES }\<close>,
  which loadData builds at three places. \<^verbatim>\<open>DEFAULT_CATEGORIES\<close> is imported from
  \<^verbatim>\<open>data/categories\<close>; it is a parameter here.
\<close>

definition ledger_from :: "json \<Rightarrow> json \<Rightarrow> exn + json" where
  "ledger_from DEFAULT_CATEGORIES x =
     andThen (get_prop (Some x) ''transactions'') (\<lambda>t.
     andThen (get_prop (Some x) ''categories'') (\<lambda>c.
     Inr (JObj [(''transactions'', js_or t (JArr [])),
                (''categories'', js_or c DEFAULT_CATEGORIES)])))"

definition empty_ledger :: "json \<Rightarrow> json" where
  "empty_ledger DEFAULT_CATEGORIES =
     JObj [(''transactions'', JArr []), (''categories'', DEFAULT_CATEGORIES)]"

text \<open>
  The body of the outer \<^verbatim>\<open>try\<close>: \<open>Inr (Some ledger)\<close> when it returns a ledger,
  \<open>Inr None\<close> when it ends without returning, \<open>Inl\<close> when it throws.
\<close>

definition loadData_try :: "platform \<Rightarrow> json \<Rightarrow> world \<Rightarrow> exn + json option" where
  "loadData_try P DEFAULT_CATEGORIES w =
     andThen
       (case present (getItem Local STORAGE_KEY w) of
          Some stored \<Rightarrow> Inr (Some stored)
        | None \<Rightarrow>
            (case present (getItem Local BACKUP_KEY w) of
               Some backup \<Rightarrow>
                 andThen (JSON_parse P backup) (\<lambda>backupData.
                 andThen (ledger_from DEFAULT_CATEGORIES backupData) (\<lambda>reshaped.
                 Inr (present (Some (JSON_stringify P reshaped)))))
             | None \<Rightarrow> Inr None))
       (\<lambda>stored.
          case (case stored of
                  None \<Rightarrow> present (getItem Session SESSION_KEY w)
                | Some s \<Rightarrow> Some s) of
            Some stored \<Rightarrow>
              andThen (JSON_parse P stored) (\<lambda>data.
              andThen (ledger_from DEFAULT_CATEGORIES data) (\<lambda>ledger.
              Inr (Some ledger)))
          | None \<Rightarrow> Inr None)"

text \<open>The inner \<^verbatim>\<open>try\<close> of the \<^verbatim>\<open>catch\<close> block: recovery from the backup.\<close>

definition loadData_recover :: "platform \<Rightarrow> json \<Rightarrow> world \<Rightarrow> exn + json option" where
  "loadData_recover P DEFAULT_CATEGORIES w =
     (case present (getItem Local BACKUP_KEY w) of
        Some backup \<Rightarrow>
          andThen (JSON_parse P backup) (\<lambda>backupData.
          andThen (ledger_from DEFAULT_CATEGORIES backupData) (\<lambda>ledger.
          Inr (Some ledger)))
      | None \<Rightarrow> Inr None)"

text \<open>loadData, lines 6 to 57. Each \<^verbatim>\<open>catch\<close> logs to the console and goes on.\<close>

definition loadData :: "platform \<Rightarrow> json \<Rightarrow> world \<Rightarrow> exn + (json \<times> world)" where
  "loadData P DEFAULT_CATEGORIES w =
     (case loadData_try P DEFAULT_CATEGORIES w of
        Inr (Some ledger) \<Rightarrow> Inr (ledger, w)
      | Inr None \<Rightarrow> Inr (empty_ledger DEFAULT_CATEGORIES, w)
      | Inl error \<Rightarrow>
          (let w1 = console_error ''Error loading data:'' w in
           case loadData_recover P DEFAULT_CATEGORIES w1 of
             Inr (Some ledger) \<Rightarrow> Inr (ledger, w1)
           | Inr None \<Rightarrow> Inr (empty_ledger DEFAULT_CATEGORIES, w1)
           | Inl backupError \<Rightarrow>
               Inr (empty_ledger DEFAULT_CATEGORIES,
                    console_error ''Error loading backup data:'' w1)))"

text \<open>The ledger that loadData hands to its caller.\<close>

definition loaded :: "platform \<Rightarrow> json \<Rightarrow> world \<Rightarrow> exn + json" where
  "loaded P DEFAULT_CATEGORIES w =
     (case loadData P DEFAULT_CATEGORIES w of Inl e \<Rightarrow> Inl e | Inr (ledger, w') \<Rightarrow> Inr ledger)"

subsection \<open>saveData\<close>

text \<open>
  The test of line 62,
  \<^verbatim>\<open>!data || !Array.isArray(data.transactions) || !Array.isArray(data.categories)\<close>,
  evaluated from left to right.
\<close>

definition saveData_invalid :: "json option \<Rightarrow> exn + bool" where
  "saveData_invalid data =
     (if \<not> truthy data then Inr True
      else
        andThen (get_prop data ''transactions'') (\<lambda>t.
        if \<not> Array_isArray t then Inr True
        else andThen (get_prop data ''categories'') (\<lambda>c. Inr (\<not> Array_isArray c))))"

text \<open>
  The text that \<^verbatim>\<open>setItem(key, JSON.stringify(data))\<close> stores: \<^verbatim>\<open>JSON.stringify\<close>
  gives \<^verbatim>\<open>undefined\<close> for \<^verbatim>\<open>undefined\<close>, which setItem turns into a string.
\<close>

definition text_of :: "platform \<Rightarrow> json option \<Rightarrow> string" where
  "text_of P data = (case data of None \<Rightarrow> ''undefined'' | Some v \<Rightarrow> JSON_stringify P v)"

text \<open>\<^verbatim>\<open>JSON.stringify(data).length\<close>\<close>

definition stringified_length :: "platform \<Rightarrow> json option \<Rightarrow> exn + nat" where
  "stringified_length P data =
     (case data of None \<Rightarrow> Inl TypeError | Some v \<Rightarrow> Inr (length (JSON_stringify P v)))"

text \<open>
  \<^verbatim>\<open>{ ...data, lastBackup: new Date().toISOString(), version: '1.0', dataIntegrity: true }\<close>.
  The clock is read once for a call of saveData: \<open>now\<close> is its ISO text.
\<close>

definition backupData :: "string \<Rightarrow> json option \<Rightarrow> json" where
  "backupData now data =
     JObj (AList.update ''dataIntegrity'' (JBool True)
          (AList.update ''version'' (JStr ''1.0'')
          (AList.update ''lastBackup'' (JStr now) (spread data))))"

definition criticalData :: "platform \<Rightarrow> string \<Rightarrow> json option \<Rightarrow> exn + json" where
  "criticalData P now data =
     andThen (get_prop data ''transactions'') (\<lambda>transactions.
     andThen (get_prop transactions ''length'') (\<lambda>transactionCount.
     andThen (get_prop data ''categories'') (\<lambda>categories.
     andThen (get_prop categories ''length'') (\<lambda>categoryCount.
     andThen (stringified_length P data) (\<lambda>checksum.
     Inr (object_literal
       [(''transactionCount'', transactionCount),
        (''categoryCount'', categoryCount),
        (''lastSaved'', Some (JStr now)),
        (''checksum'', Some (JNum (of_nat checksum)))]))))))"

text \<open>The inner \<^verbatim>\<open>try\<close>/\<^verbatim>\<open>catch\<close> of lines 83 to 93.\<close>

definition saveData_meta :: "platform \<Rightarrow> string \<Rightarrow> json option \<Rightarrow> world \<Rightarrow> world" where
  "saveData_meta P now data w =
     (case criticalData P now data of
        Inl metaError \<Rightarrow> console_warn ''Could not save metadata:'' w
      | Inr critical \<Rightarrow>
          (case setItem P Local META_KEY (JSON_stringify P critical) w of
             Inl (metaError, w') \<Rightarrow> console_warn ''Could not save metadata:'' w'
           | Inr w' \<Rightarrow> w'))"

text \<open>The body of the outer \<^verbatim>\<open>try\<close>.\<close>

definition saveData_try :: "platform \<Rightarrow> string \<Rightarrow> json option \<Rightarrow> world \<Rightarrow> (exn \<times> world) + world" where
  "saveData_try P now data w =
     (case saveData_invalid data of
        Inl e \<Rightarrow> Inl (e, w)
      | Inr True \<Rightarrow> Inr (console_error ''Invalid data structure for saving'' w)
      | Inr False \<Rightarrow>
          seq (setItem P Local STORAGE_KEY (text_of P data) w) (\<lambda>w1.
          seq (setItem P Local BACKUP_KEY (JSON_stringify P (backupData now data)) w1) (\<lambda>w2.
          seq (setItem P Session SESSION_KEY (text_of P data) w2) (\<lambda>w3.
          Inr (saveData_meta P now data w3)))))"

text \<open>saveData, lines 59 to 107.\<close>

definition saveData :: "platform \<Rightarrow> string \<Rightarrow> json option \<Rightarrow> world \<Rightarrow> (exn \<times> world) + world" where
  "saveData P now data w =
     (case saveData_try P now data w of
        Inr w' \<Rightarrow> Inr w'
      | Inl (error, w1) \<Rightarrow>
          (let w2 = console_error ''Error saving data:'' w1 in
           case setItem P Session SESSION_KEY (text_of P data) w2 of
             Inr w3 \<Rightarrow>
               Inr (alert ''Data saved to session storage as backup. Please export your data for safety.'' w3)
           | Inl (sessionError, w3) \<Rightarrow>
               Inr (alert ''Warning: Unable to save data. Please export your data as backup.''
                     (console_error ''Error saving to session storage:'' w3))))"

subsection \<open>exportToJSON\<close>

text \<open>
  The download that exportToJSON (lines 113 to 123) starts: the file name carries the date part of the clock
  text, the content is the indented text of the ledger (the data URI encodes it and the
  browser decodes it again).
\<close>

definition exportToJSON :: "platform \<Rightarrow> string \<Rightarrow> json \<Rightarrow> world \<Rightarrow> world" where
  "exportToJSON P now ledger w =
     (let dataStr = JSON_stringify_pretty P ledger;
          exportFileDefaultName =
            ''decoricks-finance-'' @ takeWhile (\<lambda>c. c \<noteq> CHR ''T'') now @ ''.json''
      in emit (Download exportFileDefaultName dataStr) w)"

section \<open>The notification log (utils/notifications.ts)\<close>

definition NOTIFICATIONS_KEY :: string where
  "NOTIFICATIONS_KEY = ''decoricks-notifications''"

text \<open>
  getNotifications (lines 44 to 54) and saveNotifications (lines 56 to 62): a text that does
  not parse gives the empty log, a refused write is logged and leaves the log as it was.
\<close>

definition getNotifications :: "platform \<Rightarrow> world \<Rightarrow> AppNotification list \<times> world" where
  "getNotifications P w =
     (case present (getItem Local NOTIFICATIONS_KEY w) of
        Some stored \<Rightarrow>
          (case parse_notifications P stored of
             Inr notifications \<Rightarrow> (notifications, w)
           | Inl error \<Rightarrow> ([], console_error ''Error loading notifications:'' w))
      | None \<Rightarrow> ([], w))"

definition saveNotifications :: "platform \<Rightarrow> AppNotification list \<Rightarrow> world \<Rightarrow> world" where
  "saveNotifications P notifications w =
     (case setItem P Local NOTIFICATIONS_KEY (stringify_notifications P notifications) w of
        Inr w' \<Rightarrow> w'
      | Inl (error, w') \<Rightarrow> console_error ''Error saving notifications:'' w')"

text \<open>
  Lines 79 to 83: \<^verbatim>\<open>unshift\<close> puts the new entry in front, \<^verbatim>\<open>splice(50)\<close> cuts
  everything from index 50 on.
\<close>

definition unshift_capped :: "AppNotification \<Rightarrow> AppNotification list \<Rightarrow> AppNotification list" where
  "unshift_capped entry notifications =
     (let notifications1 = entry # notifications
      in if length notifications1 > 50 then take 50 notifications1 else notifications1)"

text \<open>
  The entry that addNotification builds (lines 70 to 77). The generated id (clock and
  random number) and the clock text are parameters.
\<close>

definition newNotification :: "string \<Rightarrow> string \<Rightarrow> string \<Rightarrow> string \<Rightarrow> notification_type \<Rightarrow> AppNotification" where
  "newNotification fresh now ttl msg typ =
     \<lparr>id_n = fresh, title = ttl, message = msg, type_n = typ, timestamp = now, read = False\<rparr>"

text \<open>
  addNotification, lines 64 to 95; the system notification is shown when the permission
  is granted.
\<close>

definition addNotification ::
  "platform \<Rightarrow> string \<Rightarrow> string \<Rightarrow> string \<Rightarrow> string \<Rightarrow> notification_type \<Rightarrow> world \<Rightarrow> world" where
  "addNotification P fresh now ttl msg typ w =
     (case getNotifications P w of
        (notifications, w1) \<Rightarrow>
          (let w2 = saveNotifications P
                      (unshift_capped (newNotification fresh now ttl msg typ) notifications) w1
           in if Notification_permission P = ''granted''
              then emit (SystemNotification ttl msg) w2
              else w2))"

section \<open>The auto-export scheduler (utils/notifications.ts, from line 237)\<close>

definition AUTO_DOWNLOAD_KEY :: string where
  "AUTO_DOWNLOAD_KEY = ''decoricks-auto-download-settings''"

definition WEEK_IN_MS :: int where
  "WEEK_IN_MS = 7 * 24 * 60 * 60 * 1000"

text \<open>getAutoDownloadSettings, lines 246 to 262.\<close>

definition getAutoDownloadSettings :: "platform \<Rightarrow> world \<Rightarrow> AutoDownloadSettings \<times> world" where
  "getAutoDownloadSettings P w =
     (let defaults = \<lparr>enabled = True, lastDownload = [], downloadInterval = WEEK_IN_MS, format = Json\<rparr>
      in case present (getItem Local AUTO_DOWNLOAD_KEY w) of
           Some stored \<Rightarrow>
             (case parse_settings P stored of
                Inr settings \<Rightarrow> (settings, w)
              | Inl error \<Rightarrow> (defaults, console_error ''Error loading auto-download settings:'' w))
         | None \<Rightarrow> (defaults, w))"

text \<open>
  shouldAutoDownload, lines 272 to 283. \<open>now_ms\<close> is \<^verbatim>\<open>new Date().getTime()\<close>. A
  comparison with \<^verbatim>\<open>NaN\<close> is false.
\<close>

definition shouldAutoDownload :: "platform \<Rightarrow> int \<Rightarrow> world \<Rightarrow> bool \<times> world" where
  "shouldAutoDownload P now_ms w =
     (case getAutoDownloadSettings P w of
        (settings, w1) \<Rightarrow>
          if \<not> enabled settings then (False, w1)
          else if lastDownload settings = [] then (True, w1)
          else
            (case Date_getTime P (lastDownload settings) of
               None \<Rightarrow> (False, w1)
             | Some lastDownload_ms \<Rightarrow>
                 (let timeDiff = now_ms - lastDownload_ms
                  in (timeDiff \<ge> downloadInterval settings, w1))))"

section \<open>The usage tracker (unnamed/part_001)\<close>

definition LIVE_TRACKING_KEY :: string where
  "LIVE_TRACKING_KEY = ''decoricks-live-tracking''"

text \<open>
  getLiveTrackingData (lines 15 to 36) and saveLiveTrackingData (lines 38 to 44). The
  defaults carry the present time; the record, \<^verbatim>\<open>data\<close> in the source, is \<open>tracking\<close>
  here.
\<close>

definition getLiveTrackingData :: "platform \<Rightarrow> string \<Rightarrow> world \<Rightarrow> LiveTrackingData \<times> world" where
  "getLiveTrackingData P now w =
     (let defaults =
            \<lparr>sessionStart = now, totalSessions = 1, transactionsAdded = 0,
             transactionsEdited = 0, transactionsDeleted = 0, exportsPerformed = 0,
             importsPerformed = 0, lastActivity = now, dailyUsage = Map.empty\<rparr>
      in case present (getItem Local LIVE_TRACKING_KEY w) of
           Some stored \<Rightarrow>
             (case parse_tracking P stored of
                Inr tracking \<Rightarrow> (tracking, w)
              | Inl error \<Rightarrow> (defaults, console_error ''Error loading live tracking data:'' w))
         | None \<Rightarrow> (defaults, w))"

definition saveLiveTrackingData :: "platform \<Rightarrow> LiveTrackingData \<Rightarrow> world \<Rightarrow> world" where
  "saveLiveTrackingData P tracking w =
     (case setItem P Local LIVE_TRACKING_KEY (stringify_tracking P tracking) w of
        Inr w' \<Rightarrow> w'
      | Inl (error, w') \<Rightarrow> console_error ''Error saving live tracking data:'' w')"

text \<open>
  trackActivity, lines 46 to 74: first the counters and the daily count that it changes in
  the record it read.
\<close>

definition trackActivity_update :: "string \<Rightarrow> activity \<Rightarrow> LiveTrackingData \<Rightarrow> LiveTrackingData" where
  "trackActivity_update now act tracking =
     (let today = takeWhile (\<lambda>c. c \<noteq> CHR ''T'') now;
          counted =
            (case act of
               Add \<Rightarrow> tracking\<lparr>transactionsAdded := transactionsAdded tracking + 1\<rparr>
             | Edit \<Rightarrow> tracking\<lparr>transactionsEdited := transactionsEdited tracking + 1\<rparr>
             | Delete \<Rightarrow> tracking\<lparr>transactionsDeleted := transactionsDeleted tracking + 1\<rparr>
             | Export \<Rightarrow> tracking\<lparr>exportsPerformed := exportsPerformed tracking + 1\<rparr>
             | Import \<Rightarrow> tracking\<lparr>importsPerformed := importsPerformed tracking + 1\<rparr>);
          before = (case dailyUsage counted today of
                      None \<Rightarrow> 0
                    | Some c \<Rightarrow> if c \<noteq> 0 then c else 0)
      in counted\<lparr>dailyUsage := (dailyUsage counted)(today \<mapsto> before + 1), lastActivity := now\<rparr>)"

definition trackActivity :: "platform \<Rightarrow> string \<Rightarrow> activity \<Rightarrow> world \<Rightarrow> world" where
  "trackActivity P now act w =
     (case getLiveTrackingData P now w of
        (tracking, w1) \<Rightarrow> saveLiveTrackingData P (trackActivity_update now act tracking) w1)"

text \<open>
  initializeSession, lines 76 to 94: first its lines 80 to 92, on the record it read.
  \<open>now\<close> is the clock as ISO text and \<open>now_ms\<close> the same clock in milliseconds.
\<close>

definition initializeSession_update ::
  "platform \<Rightarrow> string \<Rightarrow> int \<Rightarrow> LiveTrackingData \<Rightarrow> LiveTrackingData" where
  "initializeSession_update P now now_ms tracking =
     (let thirtyMinutes = 30 * 60 * 1000;
          checked =
            (if lastActivity tracking \<noteq> [] then
               (case Date_getTime P (lastActivity tracking) of
                  None \<Rightarrow> tracking
                | Some lastActivity_ms \<Rightarrow>
                    (let timeDiff = now_ms - lastActivity_ms
                     in if timeDiff > thirtyMinutes
                        then tracking\<lparr>totalSessions := totalSessions tracking + 1, sessionStart := now\<rparr>
                        else tracking))
             else tracking)
      in checked\<lparr>lastActivity := now\<rparr>)"

definition initializeSession :: "platform \<Rightarrow> string \<Rightarrow> int \<Rightarrow> world \<Rightarrow> world" where
  "initializeSession P now now_ms w =
     (case getLiveTrackingData P now w of
        (tracking, w1) \<Rightarrow> saveLiveTrackingData P (initializeSession_update P now now_ms tracking) w1)"

section \<open>The application (App.tsx) and the import dialogue (ExportImport.tsx)\<close>

text \<open>
  The part of the React state that the import touches, and the browser state. The deferred
  refresh of the notification panel (\<^verbatim>\<open>setTimeout\<close>) is outside this model. One user
  action reads the clock once: \<open>now\<close>.
\<close>

record app =
  data :: json
  notificationSettings :: NotificationSettings
  browser :: world

text \<open>handleSaveData, App.tsx lines 101 to 119.\<close>

definition App_handleSaveData :: "platform \<Rightarrow> string \<Rightarrow> json \<Rightarrow> app \<Rightarrow> (exn \<times> app) + app" where
  "App_handleSaveData P now newData a =
     (let a1 = a\<lparr>data := newData\<rparr>
      in case saveData P now (Some newData) (browser a1) of
           Inl (e, w1) \<Rightarrow> Inl (e, a1\<lparr>browser := w1\<rparr>)
         | Inr w1 \<Rightarrow>
             (case seq (setItem P Local STORAGE_KEY (JSON_stringify P newData) w1) (\<lambda>w2.
                   seq (setItem P Local BACKUP_KEY
                          (JSON_stringify P
                             (JObj (AList.update ''lastBackup'' (JStr now) (spread (Some newData))))) w2) (\<lambda>w3.
                   setItem P Session SESSION_KEY (JSON_stringify P newData) w3)) of
                Inr w4 \<Rightarrow> Inr (a1\<lparr>browser := w4\<rparr>)
              | Inl (error, w4) \<Rightarrow>
                  Inr (a1\<lparr>browser := console_error ''Error in data persistence:'' w4\<rparr>)))"

text \<open>The message of the import notification, a template literal over two lengths.\<close>

definition import_message :: "platform \<Rightarrow> json \<Rightarrow> exn + string" where
  "import_message P importedData =
     andThen (get_prop (Some importedData) ''transactions'') (\<lambda>transactions.
     andThen (get_prop transactions ''length'') (\<lambda>transactionCount.
     andThen (get_prop (Some importedData) ''categories'') (\<lambda>categories.
     andThen (get_prop categories ''length'') (\<lambda>categoryCount.
     Inr (''Backup restored: '' @ ToString P transactionCount @ '' transactions and ''
          @ ToString P categoryCount @ '' categories imported.'')))))"

text \<open>handleImport, App.tsx lines 208 to 224.\<close>

definition App_handleImport :: "platform \<Rightarrow> string \<Rightarrow> string \<Rightarrow> json \<Rightarrow> app \<Rightarrow> (exn \<times> app) + app" where
  "App_handleImport P now fresh importedData a =
     seq (App_handleSaveData P now importedData a) (\<lambda>a1.
       let a2 = a1\<lparr>browser := trackActivity P now Import (browser a1)\<rparr>
       in if transactionNotifications (notificationSettings a2) then
            (case import_message P importedData of
               Inl e \<Rightarrow> Inl (e, a2)
             | Inr msg \<Rightarrow>
                 Inr (a2\<lparr>browser := addNotification P fresh now ''Data Imported'' msg Success (browser a2)\<rparr>))
          else Inr a2)"

definition app_alert :: "string \<Rightarrow> app \<Rightarrow> app" where
  "app_alert msg a = a\<lparr>browser := alert msg (browser a)\<rparr>"

text \<open>
  The \<^verbatim>\<open>reader.onload\<close> callback of the import dialogue (ExportImport.tsx lines 24 to
  38), on the text of the chosen file; \<^verbatim>\<open>onImport\<close> is \<open>App_handleImport\<close>. First the
  body of its \<^verbatim>\<open>try\<close>.
\<close>

definition ExportImport_onload_try ::
  "platform \<Rightarrow> string \<Rightarrow> string \<Rightarrow> string \<Rightarrow> app \<Rightarrow> (exn \<times> app) + app" where
  "ExportImport_onload_try P now fresh content a =
     (case JSON_parse P content of
        Inl e \<Rightarrow> Inl (e, a)
      | Inr importedData \<Rightarrow>
          (case get_prop (Some importedData) ''transactions'' of
             Inl e \<Rightarrow> Inl (e, a)
           | Inr transactions \<Rightarrow>
               if truthy transactions then
                 (case get_prop (Some importedData) ''categories'' of
                    Inl e \<Rightarrow> Inl (e, a)
                  | Inr categories \<Rightarrow>
                      if truthy categories then App_handleImport P now fresh importedData a
                      else Inr (app_alert ''Invalid file format. Please select a valid backup file.'' a))
               else Inr (app_alert ''Invalid file format. Please select a valid backup file.'' a)))"

definition ExportImport_onload :: "platform \<Rightarrow> string \<Rightarrow> string \<Rightarrow> string \<Rightarrow> app \<Rightarrow> app" where
  "ExportImport_onload P now fresh content a =
     (case ExportImport_onload_try P now fresh content a of
        Inr a' \<Rightarrow> a'
      | Inl (error, a') \<Rightarrow> app_alert ''Error importing data. Please check the file format.'' a')"

section \<open>The JSON codec of the platform\<close>

text \<open>
  The indented \<^verbatim>\<open>JSON.stringify(value, null, 2)\<close> that exportToJSON calls and the
  \<^verbatim>\<open>JSON.parse\<close> that the import dialogue calls, as ECMAScript defines them, on the
  values of type \<open>json\<close>.
\<close>

subsection \<open>Numbers\<close>

text \<open>
  A finite number stands here as the decimal fraction that \<^verbatim>\<open>Number::toString\<close> prints
  for it, the shortest one that reads back as the number; \<open>number_text\<close> writes that
  fraction digit by digit: an optional sign, the integer part, and after a point as many
  decimals as the denominator asks for (\<open>decimal_places\<close>). The digits are written in
  positional notation throughout, where the platform changes to the exponent notation
  from \<open>1e21\<close> on and below \<open>1e-6\<close>; the reader accepts both.
\<close>

definition is_digit :: "char \<Rightarrow> bool" where
  "is_digit c \<longleftrightarrow> 48 \<le> (of_char c :: nat) \<and> (of_char c :: nat) \<le> 57"

definition digit_val :: "char \<Rightarrow> nat" where
  "digit_val c = of_char c - 48"

definition digits_val :: "string \<Rightarrow> nat" where
  "digits_val s = foldl (\<lambda>acc c. acc * 10 + digit_val c) 0 s"

definition decimal_places :: "rat \<Rightarrow> nat option" where
  "decimal_places n =
     (case quotient_of n of (a, b) \<Rightarrow> List.find (\<lambda>k. b dvd 10 ^ k) [0..<Suc (nat b)])"

definition number_text :: "rat \<Rightarrow> string" where
  "number_text n =
     (case quotient_of n of (a, b) \<Rightarrow>
        let k = (case decimal_places n of Some k \<Rightarrow> k | None \<Rightarrow> 0);
            ds = decimal (nat (\<bar>a\<bar> * (10 ^ k div b)));
            padded = replicate (Suc k - length ds) CHR ''0'' @ ds;
            wdigits = take (length padded - k) padded;
            fdigits = drop (length padded - k) padded
        in (if a < 0 then ''-'' else []) @ wdigits @ (if k = 0 then [] else CHR ''.'' # fdigits))"

text \<open>
  The reader follows the grammar of a JSON number: an optional minus sign, an integer part
  without a leading zero, an optional fraction, an optional exponent. Its result is the
  fraction that the text denotes; the platform rounds it to the nearest number that it
  has, which for a text of \<open>number_text\<close> is that fraction.
\<close>

definition read_exponent :: "string \<Rightarrow> (int \<times> string) option" where
  "read_exponent s =
     (case s of
        [] \<Rightarrow> Some (0, s)
      | c # r \<Rightarrow>
          if c = CHR ''e'' \<or> c = CHR ''E'' then
            (let (neg, r1) = (case r of
                                [] \<Rightarrow> (False, r)
                              | d # r' \<Rightarrow> if d = CHR ''-'' then (True, r')
                                         else if d = CHR ''+'' then (False, r') else (False, r));
                 ds = takeWhile is_digit r1
             in if ds = [] then None
                else Some ((if neg then - int (digits_val ds) else int (digits_val ds)),
                           dropWhile is_digit r1))
          else Some (0, s))"

definition read_fraction :: "string \<Rightarrow> (string \<times> string) option" where
  "read_fraction s =
     (case s of
        [] \<Rightarrow> Some ([], s)
      | c # r \<Rightarrow>
          if c = CHR ''.'' then
            (if takeWhile is_digit r = [] then None
             else Some (takeWhile is_digit r, dropWhile is_digit r))
          else Some ([], s))"

definition scale :: "rat \<Rightarrow> int \<Rightarrow> rat" where
  "scale x e = (if 0 \<le> e then x * 10 ^ nat e else x / 10 ^ nat (- e))"

definition read_number :: "string \<Rightarrow> (rat \<times> string) option" where
  "read_number s =
     (let (neg, s1) = (case s of
                         [] \<Rightarrow> (False, s)
                       | c # r \<Rightarrow> if c = CHR ''-'' then (True, r) else (False, s));
          wdigits = takeWhile is_digit s1
      in if wdigits = [] \<or> (1 < length wdigits \<and> hd wdigits = CHR ''0'') then None
         else
           (case read_fraction (dropWhile is_digit s1) of
              None \<Rightarrow> None
            | Some (fdigits, s2) \<Rightarrow>
                (case read_exponent s2 of
                   None \<Rightarrow> None
                 | Some (e, s3) \<Rightarrow>
                     (let magnitude = scale (of_nat (digits_val (wdigits @ fdigits)) / 10 ^ length fdigits) e
                      in Some (if neg then - magnitude else magnitude, s3)))))"

subsection \<open>Strings\<close>

text \<open>
  \<^verbatim>\<open>QuoteJSONString\<close>: the quotation mark and the backslash are escaped, the control
  characters are written with their short escapes or with the escape of a code unit in
  four hexadecimal digits, every other character as it is. The code units are the
  characters of \<open>string\<close>, below 256; the reader refuses an escape of a higher code unit
  and a control character that is not escaped.
\<close>

definition hex_digit :: "nat \<Rightarrow> char" where
  "hex_digit d = ''0123456789abcdef'' ! d"

definition hex_val :: "char \<Rightarrow> nat option" where
  "hex_val c =
     (let n = (of_char c :: nat)
      in if 48 \<le> n \<and> n \<le> 57 then Some (n - 48)
         else if 97 \<le> n \<and> n \<le> 102 then Some (n - 87)
         else if 65 \<le> n \<and> n \<le> 70 then Some (n - 55)
         else None)"

definition escape_char :: "char \<Rightarrow> string" where
  "escape_char c =
     (if c = CHR 0x08 then [CHR 0x5C, CHR ''b'']
      else if c = CHR 0x09 then [CHR 0x5C, CHR ''t'']
      else if c = CHR 0x0A then [CHR 0x5C, CHR ''n'']
      else if c = CHR 0x0C then [CHR 0x5C, CHR ''f'']
      else if c = CHR 0x0D then [CHR 0x5C, CHR ''r'']
      else if c = CHR 0x22 then [CHR 0x5C, CHR 0x22]
      else if c = CHR 0x5C then [CHR 0x5C, CHR 0x5C]
      else if (of_char c :: nat) < 32 then
        [CHR 0x5C, CHR ''u'', CHR ''0'', CHR ''0'',
         hex_digit ((of_char c :: nat) div 16), hex_digit ((of_char c :: nat) mod 16)]
      else [c])"

definition QuoteJSONString :: "string \<Rightarrow> string" where
  "QuoteJSONString s = CHR 0x22 # concat (map escape_char s) @ [CHR 0x22]"

definition unescape :: "char \<Rightarrow> char option" where
  "unescape e =
     (if e = CHR ''b'' then Some (CHR 0x08)
      else if e = CHR ''t'' then Some (CHR 0x09)
      else if e = CHR ''n'' then Some (CHR 0x0A)
      else if e = CHR ''f'' then Some (CHR 0x0C)
      else if e = CHR ''r'' then Some (CHR 0x0D)
      else if e = CHR 0x22 \<or> e = CHR 0x5C \<or> e = CHR ''/'' then Some e
      else None)"

definition code_unit :: "string \<Rightarrow> char option" where
  "code_unit hs =
     (case map hex_val hs of
        [Some a, Some b, Some c, Some d] \<Rightarrow>
          if a = 0 \<and> b = 0 then Some (char_of (c * 16 + d)) else None
      | _ \<Rightarrow> None)"

definition cons_char :: "char \<Rightarrow> (string \<times> string) option \<Rightarrow> (string \<times> string) option" where
  "cons_char c x = map_option (\<lambda>(s, rest). (c # s, rest)) x"

fun read_string :: "string \<Rightarrow> (string \<times> string) option" where
  "read_string [] = None"
| "read_string (c # r) =
     (if c = CHR 0x22 then Some ([], r)
      else if c = CHR 0x5C then
        (case r of
           [] \<Rightarrow> None
         | e # r' \<Rightarrow>
             if e = CHR ''u'' then
               (case code_unit (take 4 r') of
                  None \<Rightarrow> None
                | Some u \<Rightarrow> cons_char u (read_string (drop 4 r')))
             else
               (case unescape e of
                  None \<Rightarrow> None
                | Some u \<Rightarrow> cons_char u (read_string r')))
      else if (of_char c :: nat) < 32 then None
      else cons_char c (read_string r))"

subsection \<open>JSON.stringify(value, null, 2)\<close>

text \<open>
  \<^verbatim>\<open>SerializeJSONProperty\<close> with a gap of two spaces, at an indentation: a number that
  is not finite is written as \<^verbatim>\<open>null\<close>; an empty array and an empty object are written
  closed at once; the elements and the members of the others are written one to a line,
  indented by two more spaces, a member as its quoted key, a colon, a space and its value.
\<close>

definition nl :: "nat \<Rightarrow> string" where
  "nl indent = CHR 0x0A # replicate indent CHR '' ''"

fun SerializeJSONProperty :: "nat \<Rightarrow> json \<Rightarrow> string"
  and SerializeJSONArray :: "nat \<Rightarrow> json list \<Rightarrow> string"
  and SerializeJSONObject :: "nat \<Rightarrow> (string \<times> json) list \<Rightarrow> string" where
  "SerializeJSONProperty indent JNull = ''null''"
| "SerializeJSONProperty indent (JBool b) = (if b then ''true'' else ''false'')"
| "SerializeJSONProperty indent (JNum n) = number_text n"
| "SerializeJSONProperty indent (JNonFinite x) = ''null''"
| "SerializeJSONProperty indent (JStr s) = QuoteJSONString s"
| "SerializeJSONProperty indent (JArr xs) =
     (if xs = [] then ''[]''
      else ''['' @ nl (indent + 2) @ SerializeJSONArray (indent + 2) xs @ nl indent @ '']'')"
| "SerializeJSONProperty indent (JObj kvs) =
     (if kvs = [] then ''{}''
      else ''{'' @ nl (indent + 2) @ SerializeJSONObject (indent + 2) kvs @ nl indent @ ''}'')"
| "SerializeJSONArray indent [] = []"
| "SerializeJSONArray indent [x] = SerializeJSONProperty indent x"
| "SerializeJSONArray indent (x # y # xs) =
     SerializeJSONProperty indent x @ '','' @ nl indent @ SerializeJSONArray indent (y # xs)"
| "SerializeJSONObject indent [] = []"
| "SerializeJSONObject indent [(k, v)] =
     QuoteJSONString k @ '': '' @ SerializeJSONProperty indent v"
| "SerializeJSONObject indent ((k, v) # y # kvs) =
     QuoteJSONString k @ '': '' @ SerializeJSONProperty indent v @ '','' @ nl indent @
     SerializeJSONObject indent (y # kvs)"

definition json_stringify_pretty :: "json \<Rightarrow> string" where
  "json_stringify_pretty v = SerializeJSONProperty 0 v"

subsection \<open>JSON.parse\<close>

text \<open>
  A recursive-descent reader of the JSON grammar. White space is skipped before a value
  and before every delimiter. An object is built member by member with
  \<^verbatim>\<open>CreateDataProperty\<close>: a key that occurs again keeps its place and takes the later
  value. The functions descend on a fuel, one unit for each value, sequence of elements
  and sequence of members that they enter; \<open>json_parse\<close> gives them the length of the
  text and throws a \<^verbatim>\<open>SyntaxError\<close> when no value is read or when anything but white
  space follows it.
\<close>

definition is_ws :: "char \<Rightarrow> bool" where
  "is_ws c \<longleftrightarrow> c = CHR '' '' \<or> c = CHR 0x09 \<or> c = CHR 0x0A \<or> c = CHR 0x0D"

definition skip_ws :: "string \<Rightarrow> string" where
  "skip_ws s = dropWhile is_ws s"

definition literal :: "string \<Rightarrow> json \<Rightarrow> string \<Rightarrow> (json \<times> string) option" where
  "literal word v s =
     (if take (length word) s = word then Some (v, drop (length word) s) else None)"

definition CreateDataProperty :: "(string \<times> json) list \<Rightarrow> string \<times> json \<Rightarrow> (string \<times> json) list" where
  "CreateDataProperty obj kv = AList.update (fst kv) (snd kv) obj"

fun parse_value :: "nat \<Rightarrow> string \<Rightarrow> (json \<times> string) option"
  and parse_elements :: "nat \<Rightarrow> string \<Rightarrow> (json list \<times> string) option"
  and parse_members :: "nat \<Rightarrow> string \<Rightarrow> ((string \<times> json) list \<times> string) option" where
  "parse_value 0 s = None"
| "parse_value (Suc fuel) s =
     (case skip_ws s of
        [] \<Rightarrow> None
      | c # r \<Rightarrow>
          if c = CHR ''{'' then
            (case skip_ws r of
               [] \<Rightarrow> None
             | d # r' \<Rightarrow>
                 if d = CHR ''}'' then Some (JObj [], r')
                 else (case parse_members fuel (d # r') of
                         None \<Rightarrow> None
                       | Some (kvs, rest) \<Rightarrow> Some (JObj (foldl CreateDataProperty [] kvs), rest)))
          else if c = CHR ''['' then
            (case skip_ws r of
               [] \<Rightarrow> None
             | d # r' \<Rightarrow>
                 if d = CHR '']'' then Some (JArr [], r')
                 else (case parse_elements fuel (d # r') of
                         None \<Rightarrow> None
                       | Some (xs, rest) \<Rightarrow> Some (JArr xs, rest)))
          else if c = CHR 0x22 then
            (case read_string r of
               None \<Rightarrow> None
             | Some (str, rest) \<Rightarrow> Some (JStr str, rest))
          else if c = CHR ''t'' then literal ''true'' (JBool True) (c # r)
          else if c = CHR ''f'' then literal ''false'' (JBool False) (c # r)
          else if c = CHR ''n'' then literal ''null'' JNull (c # r)
          else
            (case read_number (c # r) of
               None \<Rightarrow> None
             | Some (n, rest) \<Rightarrow> Some (JNum n, rest)))"
| "parse_elements 0 s = None"
| "parse_elements (Suc fuel) s =
     (case parse_value fuel s of
        None \<Rightarrow> None
      | Some (v, r) \<Rightarrow>
          (case skip_ws r of
             [] \<Rightarrow> None
           | c # r' \<Rightarrow>
               if c = CHR '','' then
                 (case parse_elements fuel r' of
                    None \<Rightarrow> None
                  | Some (vs, rest) \<Rightarrow> Some (v # vs, rest))
               else if c = CHR '']'' then Some ([v], r')
               else None))"
| "parse_members 0 s = None"
| "parse_members (Suc fuel) s =
     (case skip_ws s of
        [] \<Rightarrow> None
      | q # r \<Rightarrow>
          if q = CHR 0x22 then
            (case read_string r of
               None \<Rightarrow> None
             | Some (k, r1) \<Rightarrow>
                 (case skip_ws r1 of
                    [] \<Rightarrow> None
                  | colon # r2 \<Rightarrow>
                      if colon = CHR '':'' then
                        (case parse_value fuel r2 of
                           None \<Rightarrow> None
                         | Some (v, r3) \<Rightarrow>
                             (case skip_ws r3 of
                                [] \<Rightarrow> None
                              | c # r4 \<Rightarrow>
                                  if c = CHR '','' then
                                    (case parse_members fuel r4 of
                                       None \<Rightarrow> None
                                     | Some (kvs, rest) \<Rightarrow> Some ((k, v) # kvs, rest))
                                  else if c = CHR ''}'' then Some ([(k, v)], r4)
                                  else None))
                      else None))
          else None)"

definition json_parse :: "string \<Rightarrow> exn + json" where
  "json_parse s =
     (case parse_value (length s) s of
        None \<Rightarrow> Inl SyntaxError
      | Some (v, rest) \<Rightarrow> if skip_ws rest = [] then Inr v else Inl SyntaxError)"

text \<open>
  Two notions for the texts that \<open>SerializeJSONProperty\<close> writes: what may follow a value
  (the end of the text, a comma, or a line break), and how a value begins (with a
  character that is neither white space nor a closing bracket).
\<close>

definition delimited :: "string \<Rightarrow> bool" where
  "delimited rest \<longleftrightarrow> (case rest of [] \<Rightarrow> True | c # r \<Rightarrow> c = CHR '','' \<or> c = CHR 0x0A)"

definition starts_value :: "string \<Rightarrow> bool" where
  "starts_value s \<longleftrightarrow>
     (\<exists>c r. s = c # r \<and> \<not> is_ws c \<and> c \<noteq> CHR '']'' \<and> c \<noteq> CHR ''}'')"

section \<open>Notions of the specification\<close>

text \<open>The field of a value under a name, when the value is an object that has it.\<close>

definition field_of :: "json option \<Rightarrow> string \<Rightarrow> json option" where
  "field_of x k = (case x of Some (JObj kvs) \<Rightarrow> map_of kvs k | _ \<Rightarrow> None)"

text \<open>A ledger: its transactions and its categories are sequences.\<close>

definition is_ledger :: "json option \<Rightarrow> bool" where
  "is_ledger x \<longleftrightarrow>
     Array_isArray (field_of x ''transactions'') \<and> Array_isArray (field_of x ''categories'')"

text \<open>A storage location that is empty (no entry, or the empty text) or does not parse.\<close>

definition unusable :: "platform \<Rightarrow> string option \<Rightarrow> bool" where
  "unusable P stored = (case present stored of None \<Rightarrow> True | Some s \<Rightarrow> isl (JSON_parse P s))"


text \<open>An import payload with a truthy transactions field and a truthy categories field.\<close>

definition import_accepts :: "json \<Rightarrow> bool" where
  "import_accepts v \<longleftrightarrow>
     truthy (field_of (Some v) ''transactions'') \<and> truthy (field_of (Some v) ''categories'')"

text \<open>More than thirty minutes have passed since the recorded last activity.\<close>

definition idle_too_long :: "platform \<Rightarrow> int \<Rightarrow> LiveTrackingData \<Rightarrow> bool" where
  "idle_too_long P now_ms tracking \<longleftrightarrow>
     lastActivity tracking \<noteq> [] \<and>
     (case Date_getTime P (lastActivity tracking) of
        None \<Rightarrow> False
      | Some t \<Rightarrow> now_ms - t > 1800000)"

text \<open>
  A sequence of appends to the notification log, each with its generated id, its clock
  text, its title, its message and its type; the log after them, from the log before.
\<close>

definition entry_notification ::
  "string \<times> string \<times> string \<times> string \<times> notification_type \<Rightarrow> AppNotification" where
  "entry_notification e =
     (case e of (fresh, now, ttl, msg, typ) \<Rightarrow> newNotification fresh now ttl msg typ)"

definition append_all ::
  "(string \<times> string \<times> string \<times> string \<times> notification_type) list
     \<Rightarrow> AppNotification list \<Rightarrow> AppNotification list" where
  "append_all entries notifications =
     foldl (\<lambda>ns e. unshift_capped (entry_notification e) ns) notifications entries"

text \<open>The same appends, one call of addNotification after the other.\<close>

definition addNotifications ::
  "platform \<Rightarrow> (string \<times> string \<times> string \<times> string \<times> notification_type) list
     \<Rightarrow> world \<Rightarrow> world" where
  "addNotifications P entries w =
     foldl (\<lambda>w e. case e of (fresh, now, ttl, msg, typ) \<Rightarrow> addNotification P fresh now ttl msg typ w)
       w entries"

text \<open>The files that were offered for download, oldest first.\<close>

definition downloads :: "world \<Rightarrow> (string \<times> string) list" where
  "downloads w = List.map_filter (\<lambda>e. case e of Download name content \<Rightarrow> Some (name, content) | _ \<Rightarrow> None) (events w)"

text \<open>
  A rejected import: one alert is shown, and the ledger in memory, the settings and both
  storages are as before.
\<close>

definition rejected_with :: "string \<Rightarrow> app \<Rightarrow> app \<Rightarrow> bool" where
  "rejected_with msg a a' \<longleftrightarrow>
     data a' = data a \<and> notificationSettings a' = notificationSettings a \<and>
     localStorage (browser a') = localStorage (browser a) \<and>
     sessionStorage (browser a') = sessionStorage (browser a) \<and>
     events (browser a') = events (browser a) @ [Alert msg]"

text \<open>
  The usage record after the session check: a new session is counted and its start is set
  when the last activity is too long ago; the last activity becomes the present time.
\<close>

definition after_session_check ::
  "platform \<Rightarrow> string \<Rightarrow> int \<Rightarrow> LiveTrackingData \<Rightarrow> LiveTrackingData" where
  "after_session_check P now now_ms tracking =
     (if idle_too_long P now_ms tracking
      then tracking\<lparr>totalSessions := totalSessions tracking + 1, sessionStart := now, lastActivity := now\<rparr>
      else tracking\<lparr>lastActivity := now\<rparr>)"

text \<open>
  The values that JSON carries as they are: no number in them is \<^verbatim>\<open>NaN\<close>,
  \<^verbatim>\<open>Infinity\<close> or \<^verbatim>\<open>-Infinity\<close>.
\<close>

fun finite_numbers :: "json \<Rightarrow> bool" where
  "finite_numbers (JNonFinite x) = False"
| "finite_numbers (JArr xs) = list_all finite_numbers xs"
| "finite_numbers (JObj kvs) = list_all (\<lambda>kv. finite_numbers (snd kv)) kvs"
| "finite_numbers v = True"

text \<open>
  The values that stand for values of the program: every finite number is a decimal
  fraction, as the text of a number is, and no object has a key twice.
\<close>

definition is_decimal :: "rat \<Rightarrow> bool" where
  "is_decimal n \<longleftrightarrow> decimal_places n \<noteq> None"

fun representable :: "json \<Rightarrow> bool" where
  "representable (JNum n) = is_decimal n"
| "representable (JArr xs) = list_all representable xs"
| "representable (JObj kvs) =
     (distinct (map fst kvs) \<and> list_all (\<lambda>kv. representable (snd kv)) kvs)"
| "representable v = True"

section \<open>A sample platform and sample data\<close>

definition sample_categories :: json where
  "sample_categories = JArr [JObj [(''name'', JStr ''Rent''), (''type'', JStr ''expense'')]]"

definition sample_transactions :: json where
  "sample_transactions =
     JArr [JObj [(''id'', JStr ''t1''), (''type'', JStr ''expense''), (''amount'', JNum 500),
                 (''currency'', JStr ''PKR''), (''category'', JStr ''Rent''),
                 (''description'', JStr []), (''date'', JStr ''2024-01-05'')]]"

definition sample_ledger :: json where
  "sample_ledger = JObj [(''transactions'', sample_transactions), (''categories'', sample_categories)]"

text \<open>A backup payload that has lost its categories.\<close>

definition sample_backup :: json where
  "sample_backup =
     JObj [(''transactions'', sample_transactions), (''lastBackup'', JStr ''2024-01-05T10:00:00.000Z'')]"

definition sample_notification :: AppNotification where
  "sample_notification =
     \<lparr>id_n = ''n0'', title = ''Welcome'', message = ''Ready'', type_n = Info,
      timestamp = ''2024-01-05T10:00:00.000Z'', read = True\<rparr>"

definition sample_settings :: AutoDownloadSettings where
  "sample_settings =
     \<lparr>enabled = True, lastDownload = ''2024-01-05T10:00:00.000Z'',
      downloadInterval = 604800000, format = Json\<rparr>"

definition sample_tracking :: LiveTrackingData where
  "sample_tracking =
     \<lparr>sessionStart = ''2024-01-05T09:00:00.000Z'', totalSessions = 3, transactionsAdded = 1,
      transactionsEdited = 0, transactionsDeleted = 0, exportsPerformed = 0,
      importsPerformed = 0, lastActivity = ''2024-01-05T10:00:00.000Z'', dailyUsage = Map.empty\<rparr>"

text \<open>A usage record without a last activity.\<close>

definition idle_tracking :: LiveTrackingData where
  "idle_tracking = sample_tracking\<lparr>sessionStart := ''2024-01-04T08:00:00.000Z'', lastActivity := []\<rparr>"

text \<open>
  The sample platform reads and writes a few texts only; its storage accepts every write.
  \<open>2024-01-05T10:00:00.000Z\<close> is 1704448800000 ms.
\<close>

definition sample_platform :: platform where
  "sample_platform =
     \<lparr>JSON_parse = (\<lambda>s. if s = ''<ledger>'' then Inr sample_ledger
                        else if s = ''<backup>'' then Inr sample_backup
                        else Inl SyntaxError),
      JSON_stringify = (\<lambda>v. if v = sample_ledger then ''<ledger>'' else ''<other>''),
      JSON_stringify_pretty = (\<lambda>v. if v = sample_ledger then ''<ledger>'' else ''<other>''),
      ToString = (\<lambda>v. ''1''),
      parse_notifications = (\<lambda>s. if s = ''<log>'' then Inr [sample_notification] else Inl SyntaxError),
      stringify_notifications = (\<lambda>ns. ''<log>''),
      parse_settings = (\<lambda>s. if s = ''<settings>'' then Inr sample_settings else Inl SyntaxError),
      parse_tracking = (\<lambda>s. if s = ''<tracking>'' then Inr sample_tracking
                            else if s = ''<idle>'' then Inr idle_tracking
                            else Inl SyntaxError),
      stringify_tracking = (\<lambda>t. if t = idle_tracking\<lparr>lastActivity := ''2024-02-01T12:00:00.000Z''\<rparr>
                                then ''<idle, seen 2024-02-01>''
                                else if totalSessions t = 4 then ''<tracking, 4 sessions>''
                                else ''<tracking>''),
      Date_getTime = (\<lambda>s. if s = ''2024-01-05T10:00:00.000Z'' then Some 1704448800000 else None),
      quota_exceeded = (\<lambda>a k v. False),
      Notification_permission = ''default''\<rparr>"

text \<open>
  The sample platform with a storage that refuses the write of the primary location, and
  with a session storage that is full.
\<close>

definition primary_full :: platform where
  "primary_full = sample_platform\<lparr>quota_exceeded := (\<lambda>a k v. a = Local \<and> k = STORAGE_KEY)\<rparr>"

definition session_full :: platform where
  "session_full = sample_platform\<lparr>quota_exceeded := (\<lambda>a k v. a = Session)\<rparr>"

text \<open>
  A codec for the notification log that reads back every log it writes: a text is written
  as its length in strokes, a zero and the text itself; an entry as its four texts, its
  type and its read mark; a log as its entries, each after an \<open>E\<close>, and a closing \<open>X\<close>.
  \<open>log_platform\<close> is the sample platform with this codec.
\<close>

definition write_text :: "string \<Rightarrow> string" where
  "write_text s = replicate (length s) CHR ''1'' @ CHR ''0'' # s"

definition read_text :: "string \<Rightarrow> string \<times> string" where
  "read_text xs =
     (let n = length (takeWhile (\<lambda>c. c = CHR ''1'') xs); rest = drop (Suc n) xs
      in (take n rest, drop n rest))"

definition write_type :: "notification_type \<Rightarrow> char" where
  "write_type t = (case t of Success \<Rightarrow> CHR ''s'' | Info \<Rightarrow> CHR ''i'' | Warning \<Rightarrow> CHR ''w'' | Reminder \<Rightarrow> CHR ''r'')"

definition read_type :: "char \<Rightarrow> notification_type" where
  "read_type c = (if c = CHR ''s'' then Success else if c = CHR ''i'' then Info
                  else if c = CHR ''w'' then Warning else Reminder)"

definition write_notification :: "AppNotification \<Rightarrow> string" where
  "write_notification n =
     write_text (id_n n) @ write_text (title n) @ write_text (message n) @
     write_text (timestamp n) @ [write_type (type_n n), if read n then CHR ''R'' else CHR ''U'']"

definition read_notification :: "string \<Rightarrow> AppNotification \<times> string" where
  "read_notification xs =
     (case read_text xs of (i, xs1) \<Rightarrow>
      case read_text xs1 of (t, xs2) \<Rightarrow>
      case read_text xs2 of (m, xs3) \<Rightarrow>
      case read_text xs3 of (ts, xs4) \<Rightarrow>
        (\<lparr>id_n = i, title = t, message = m, type_n = read_type (hd xs4), timestamp = ts,
          read = (hd (tl xs4) = CHR ''R'')\<rparr>, tl (tl xs4)))"

definition write_log :: "AppNotification list \<Rightarrow> string" where
  "write_log ns = concat (map (\<lambda>n. CHR ''E'' # write_notification n) ns) @ ''X''"

fun read_log :: "nat \<Rightarrow> string \<Rightarrow> AppNotification list option" where
  "read_log 0 xs = None"
| "read_log (Suc k) [] = None"
| "read_log (Suc k) (c # xs) =
     (if c = CHR ''X'' then Some []
      else if c = CHR ''E'' then
        (case read_notification xs of (n, rest) \<Rightarrow> map_option (Cons n) (read_log k rest))
      else None)"

definition parse_log :: "string \<Rightarrow> exn + AppNotification list" where
  "parse_log s = (case read_log (length s) s of Some ns \<Rightarrow> Inr ns | None \<Rightarrow> Inl SyntaxError)"

definition log_platform :: platform where
  "log_platform = sample_platform\<lparr>parse_notifications := parse_log, stringify_notifications := write_log\<rparr>"

definition fresh_world :: world where
  "fresh_world = \<lparr>localStorage = Map.empty, sessionStorage = Map.empty, events = []\<rparr>"

text \<open>A browser whose three ledger locations hold nothing that can be read.\<close>

definition corrupt_world :: world where
  "corrupt_world =
     \<lparr>localStorage = [STORAGE_KEY \<mapsto> ''{oops'', BACKUP_KEY \<mapsto> []],
      sessionStorage = [SESSION_KEY \<mapsto> ''[1,''], events = []\<rparr>"



text \<open>The clock of the examples: \<open>2024-02-01T12:00:00.000Z\<close> is 1706788800000 ms.\<close>

definition sample_now :: string where
  "sample_now = ''2024-02-01T12:00:00.000Z''"

definition sample_now_ms :: int where
  "sample_now_ms = 1706788800000"

text \<open>Browsers that hold the sample settings, the sample usage records and the sample log.\<close>

definition settings_world :: world where
  "settings_world =
     \<lparr>localStorage = [AUTO_DOWNLOAD_KEY \<mapsto> ''<settings>''], sessionStorage = Map.empty, events = []\<rparr>"

definition tracking_world :: world where
  "tracking_world =
     \<lparr>localStorage = [LIVE_TRACKING_KEY \<mapsto> ''<tracking>''], sessionStorage = Map.empty, events = []\<rparr>"

definition idle_world :: world where
  "idle_world =
     \<lparr>localStorage = [LIVE_TRACKING_KEY \<mapsto> ''<idle>''], sessionStorage = Map.empty, events = []\<rparr>"

definition garbled_settings_world :: world where
  "garbled_settings_world =
     \<lparr>localStorage = [AUTO_DOWNLOAD_KEY \<mapsto> ''{enabled:''], sessionStorage = Map.empty, events = []\<rparr>"

definition log_world :: world where
  "log_world =
     \<lparr>localStorage = [NOTIFICATIONS_KEY \<mapsto> ''<log>''], sessionStorage = Map.empty, events = []\<rparr>"

text \<open>Sixty appends, with the ids \<open>n\<close>, \<open>nn\<close>, \<open>nnn\<close> and so on.\<close>

definition sample_entries :: "(string \<times> string \<times> string \<times> string \<times> notification_type) list" where
  "sample_entries =
     map (\<lambda>i. (replicate (Suc i) CHR ''n'', sample_now, ''Transaction Added'', ''New expense'', Success))
       [0..<60]"

definition sample_app :: app where
  "sample_app =
     \<lparr>data = JObj [(''transactions'', JArr []), (''categories'', JArr [])],
      notificationSettings =
        \<lparr>weeklyReminders = True, monthlyReminders = True, transactionNotifications = True\<rparr>,
      browser = fresh_world\<rparr>"

text \<open>
  The sample platform with the JSON codec of the previous section for the indented text
  and for the reader.
\<close>

definition codec_platform :: platform where
  "codec_platform =
     sample_platform\<lparr>JSON_parse := json_parse, JSON_stringify_pretty := json_stringify_pretty\<rparr>"

text \<open>
  A ledger whose transaction has the amount \<^verbatim>\<open>NaN\<close>, and the ledger with \<^verbatim>\<open>null\<close>
  in the place of that amount.
\<close>

definition nan_ledger :: json where
  "nan_ledger =
     JObj [(''transactions'',
            JArr [JObj [(''id'', JStr ''t1''), (''type'', JStr ''expense''),
                        (''amount'', JNonFinite NaN), (''currency'', JStr ''PKR''),
                        (''category'', JStr ''Rent''), (''description'', JStr []),
                        (''date'', JStr ''2024-01-05'')]]),
           (''categories'', sample_categories)]"

definition null_ledger :: json where
  "null_ledger =
     JObj [(''transactions'',
            JArr [JObj [(''id'', JStr ''t1''), (''type'', JStr ''expense''),
                        (''amount'', JNull), (''currency'', JStr ''PKR''),
                        (''category'', JStr ''Rent''), (''description'', JStr []),
                        (''date'', JStr ''2024-01-05'')]]),
           (''categories'', sample_categories)]"

section \<open>Properties of the ledger store\<close>

lemmas key_defs = STORAGE_KEY_def BACKUP_KEY_def SESSION_KEY_def META_KEY_def
  NOTIFICATIONS_KEY_def AUTO_DOWNLOAD_KEY_def LIVE_TRACKING_KEY_def

lemma getItem_emit [simp]: "getItem a k (emit e w) = getItem a k w"
  by (simp add: getItem_def emit_def split: area.splits)

lemma saveData_invalid_iff: "saveData_invalid input = Inr (\<not> is_ledger input)"
  by (cases input rule: truthy.cases)
     (auto simp: saveData_invalid_def andThen_def field_of_def is_ledger_def)

text \<open>
  Claim C4. For every input of saveData whose transactions or whose categories are not a
  sequence, and for the input that is missing altogether, the save is abandoned without an
  exception: saveData ends normally, it logs one error to the console, and neither the
  local nor the session storage is changed at any key.
\<close>

theorem saveData_abandons_invalid_input:
  assumes "\<not> is_ledger input"
  shows "saveData P now input w = Inr (console_error ''Invalid data structure for saving'' w) \<and>
         localStorage (console_error ''Invalid data structure for saving'' w) = localStorage w \<and>
         sessionStorage (console_error ''Invalid data structure for saving'' w) = sessionStorage w"
  using assms
  by (simp add: saveData_def saveData_try_def saveData_invalid_iff console_error_def emit_def)

theorem saveData_abandons_invalid_input_witness:
  "\<not> is_ledger None \<and>
   saveData sample_platform sample_now None fresh_world =
     Inr (fresh_world\<lparr>events := [ConsoleError ''Invalid data structure for saving'']\<rparr>) \<and>
   \<not> is_ledger (Some (JObj [(''transactions'', JStr ''none''), (''categories'', JArr [])])) \<and>
   saveData sample_platform sample_now
     (Some (JObj [(''transactions'', JStr ''none''), (''categories'', JArr [])])) fresh_world =
     Inr (fresh_world\<lparr>events := [ConsoleError ''Invalid data structure for saving'']\<rparr>)"
proof -
  have a: "\<not> is_ledger None"
    by (simp add: is_ledger_def field_of_def)
  have b: "\<not> is_ledger (Some (JObj [(''transactions'', JStr ''none''), (''categories'', JArr [])]))"
    by (simp add: is_ledger_def field_of_def)
  show ?thesis
    using a b saveData_abandons_invalid_input [OF a, of sample_platform sample_now fresh_world]
      saveData_abandons_invalid_input [OF b, of sample_platform sample_now fresh_world]
    by (simp add: console_error_def emit_def fresh_world_def)
qed

text \<open>
  Claim C2. loadData never throws, whatever the storage holds and whatever the codec does;
  and when the primary, the backup and the session location are each empty or unparseable,
  it returns the empty ledger with the default categories.
\<close>

theorem loadData_never_raises_and_defaults:
  "(\<exists>ledger. loaded P DC w = Inr ledger) \<and>
   (unusable P (getItem Local STORAGE_KEY w) \<and> unusable P (getItem Local BACKUP_KEY w) \<and>
    unusable P (getItem Session SESSION_KEY w) \<longrightarrow> loaded P DC w = Inr (empty_ledger DC))"
proof
  show "\<exists>ledger. loaded P DC w = Inr ledger"
    by (simp add: loaded_def loadData_def Let_def split: sum.splits option.splits prod.splits)
next
  show "unusable P (getItem Local STORAGE_KEY w) \<and> unusable P (getItem Local BACKUP_KEY w) \<and>
    unusable P (getItem Session SESSION_KEY w) \<longrightarrow> loaded P DC w = Inr (empty_ledger DC)"
    by (auto simp: loaded_def loadData_def loadData_try_def loadData_recover_def unusable_def
        andThen_def console_error_def Let_def isl_def split: sum.splits option.splits prod.splits)
qed

theorem loadData_never_raises_and_defaults_witness:
  "unusable sample_platform (getItem Local STORAGE_KEY corrupt_world) \<and>
   unusable sample_platform (getItem Local BACKUP_KEY corrupt_world) \<and>
   unusable sample_platform (getItem Session SESSION_KEY corrupt_world) \<and>
   loaded sample_platform sample_categories corrupt_world =
     Inr (JObj [(''transactions'', JArr []), (''categories'', sample_categories)])"
proof -
  have u: "unusable sample_platform (getItem Local STORAGE_KEY corrupt_world) \<and>
   unusable sample_platform (getItem Local BACKUP_KEY corrupt_world) \<and>
   unusable sample_platform (getItem Session SESSION_KEY corrupt_world)"
    by (simp add: unusable_def getItem_def corrupt_world_def present_def key_defs sample_platform_def)
  with loadData_never_raises_and_defaults [of sample_platform sample_categories corrupt_world]
  show ?thesis by (simp add: empty_ledger_def)
qed







lemma is_ledger_shape:
  assumes "is_ledger input"
  obtains kvs ts cs where "input = Some (JObj kvs)"
    "map_of kvs ''transactions'' = Some (JArr ts)" "map_of kvs ''categories'' = Some (JArr cs)"
proof -
  from assms obtain kvs where d: "input = Some (JObj kvs)"
    by (cases input rule: truthy.cases) (auto simp: is_ledger_def field_of_def)
  from assms d obtain ts where t: "map_of kvs ''transactions'' = Some (JArr ts)"
    by (cases "map_of kvs ''transactions''" rule: Array_isArray.cases)
       (auto simp: is_ledger_def field_of_def)
  from assms d obtain cs where "map_of kvs ''categories'' = Some (JArr cs)"
    by (cases "map_of kvs ''categories''" rule: Array_isArray.cases)
       (auto simp: is_ledger_def field_of_def)
  with d t that show thesis by blast
qed

lemma criticalData_of_ledger:
  assumes "is_ledger input"
  shows "\<exists>critical. criticalData P now input = Inr critical"
  using assms
  by (elim is_ledger_shape) (simp add: criticalData_def andThen_def stringified_length_def)

text \<open>
  Claim C1, as amended. With a valid ledger, saveData attempts the four writes in the
  order primary, backup, session, metadata, and always ends normally. Only the metadata
  write is independent: when the first three are accepted they stay written whether or not
  the metadata write fails, and its failure is logged as a warning. A failure of the
  primary, the backup or the session write is caught and logged, and it skips every write
  after it: local storage then holds only what was written before the failure, and one
  write to the session location is attempted as a fallback, followed by an alert.
\<close>

theorem saveData_write_sequence:
  assumes valid: "is_ledger input"
  shows "\<exists>w' critical. saveData P now input w = Inr w' \<and>
     criticalData P now input = Inr critical \<and>
     (let p = quota_exceeded P Local STORAGE_KEY (text_of P input);
          b = quota_exceeded P Local BACKUP_KEY (JSON_stringify P (backupData now input));
          s = quota_exceeded P Session SESSION_KEY (text_of P input);
          m = quota_exceeded P Local META_KEY (JSON_stringify P critical)
      in
        (\<not> p \<and> \<not> b \<and> \<not> s \<longrightarrow>
            localStorage w' STORAGE_KEY = Some (text_of P input) \<and>
            localStorage w' BACKUP_KEY = Some (JSON_stringify P (backupData now input)) \<and>
            sessionStorage w' SESSION_KEY = Some (text_of P input) \<and>
            (if m then localStorage w' META_KEY = localStorage w META_KEY \<and>
                       events w' = events w @ [ConsoleWarn ''Could not save metadata:'']
             else localStorage w' META_KEY = Some (JSON_stringify P critical) \<and>
                  events w' = events w)) \<and>
        (p \<longrightarrow> localStorage w' = localStorage w) \<and>
        (\<not> p \<and> b \<longrightarrow> localStorage w' = (localStorage w)(STORAGE_KEY \<mapsto> text_of P input)) \<and>
        (\<not> p \<and> \<not> b \<and> s \<longrightarrow>
            localStorage w' = (localStorage w)(STORAGE_KEY \<mapsto> text_of P input,
               BACKUP_KEY \<mapsto> JSON_stringify P (backupData now input))) \<and>
        (p \<or> b \<or> s \<longrightarrow>
            (if s then sessionStorage w' = sessionStorage w \<and>
                       events w' = events w @ [ConsoleError ''Error saving data:'',
                         ConsoleError ''Error saving to session storage:'',
                         Alert ''Warning: Unable to save data. Please export your data as backup.'']
             else sessionStorage w' = (sessionStorage w)(SESSION_KEY \<mapsto> text_of P input) \<and>
                  events w' = events w @ [ConsoleError ''Error saving data:'',
                    Alert ''Data saved to session storage as backup. Please export your data for safety.''])))"
proof -
  from criticalData_of_ledger [OF valid] obtain critical where
    "criticalData P now input = Inr critical"
    by blast
  with valid show ?thesis
    by (auto simp: saveData_def saveData_try_def saveData_invalid_iff saveData_meta_def seq_def
        setItem_def put_def console_error_def console_warn_def alert_def emit_def Let_def key_defs)
qed

lemma sample_is_ledger: "is_ledger (Some sample_ledger)"
  by (simp add: is_ledger_def field_of_def sample_ledger_def sample_transactions_def
      sample_categories_def)

lemma sample_critical:
  "criticalData P sample_now (Some sample_ledger) =
     Inr (JObj [(''transactionCount'', JNum 1), (''categoryCount'', JNum 1),
                (''lastSaved'', JStr sample_now),
                (''checksum'', JNum (of_nat (length (JSON_stringify P sample_ledger))))])"
  by (simp add: criticalData_def andThen_def stringified_length_def object_literal_def
      List.map_filter_simps sample_ledger_def sample_transactions_def sample_categories_def)

text \<open>
  Claim C1, as stated, fails: when the session storage is full and the local storage
  accepts every write, the failure of the session write ends the sequence. The metadata
  write is not attempted, and the metadata location stays empty.
\<close>

theorem saveData_independent_writes_counterexample:
  "is_ledger (Some sample_ledger) \<and>
   quota_exceeded session_full Session SESSION_KEY (text_of session_full (Some sample_ledger)) \<and>
   \<not> quota_exceeded session_full Local STORAGE_KEY (text_of session_full (Some sample_ledger)) \<and>
   \<not> quota_exceeded session_full Local BACKUP_KEY
       (JSON_stringify session_full (backupData sample_now (Some sample_ledger))) \<and>
   \<not> quota_exceeded session_full Local META_KEY ''<other>'' \<and>
   saveData session_full sample_now (Some sample_ledger) fresh_world =
     Inr \<lparr>localStorage = [STORAGE_KEY \<mapsto> ''<ledger>'', BACKUP_KEY \<mapsto> ''<other>''],
          sessionStorage = Map.empty,
          events = [ConsoleError ''Error saving data:'',
            ConsoleError ''Error saving to session storage:'',
            Alert ''Warning: Unable to save data. Please export your data as backup.'']\<rparr> \<and>
   [STORAGE_KEY \<mapsto> ''<ledger>'', BACKUP_KEY \<mapsto> ''<other>''] META_KEY = None"
proof -
  have q: "quota_exceeded session_full = (\<lambda>a k v. a = Session)"
    by (simp add: session_full_def)
  have t: "text_of session_full (Some sample_ledger) = ''<ledger>''"
    by (simp add: text_of_def session_full_def sample_platform_def)
  have b: "JSON_stringify session_full (backupData sample_now (Some sample_ledger)) = ''<other>''"
    by (simp add: session_full_def sample_platform_def backupData_def sample_ledger_def)
  have s: "saveData session_full sample_now (Some sample_ledger) fresh_world =
     Inr \<lparr>localStorage = [STORAGE_KEY \<mapsto> ''<ledger>'', BACKUP_KEY \<mapsto> ''<other>''],
          sessionStorage = Map.empty,
          events = [ConsoleError ''Error saving data:'',
            ConsoleError ''Error saving to session storage:'',
            Alert ''Warning: Unable to save data. Please export your data as backup.'']\<rparr>"
    by (simp add: sample_is_ledger saveData_def saveData_try_def saveData_invalid_iff seq_def
        setItem_def put_def console_error_def alert_def emit_def Let_def q t b fresh_world_def)
  have m: "[STORAGE_KEY \<mapsto> ''<ledger>'', BACKUP_KEY \<mapsto> ''<other>''] META_KEY = None"
    by (simp add: key_defs)
  from sample_is_ledger s m show ?thesis
    by (simp add: q t b)
qed

theorem saveData_write_sequence_witness:
  "is_ledger (Some sample_ledger) \<and>
   (\<exists>w'. saveData primary_full sample_now (Some sample_ledger) fresh_world = Inr w' \<and>
         localStorage w' = Map.empty \<and>
         sessionStorage w' = [SESSION_KEY \<mapsto> ''<ledger>'']) \<and>
   (\<exists>w'. saveData sample_platform sample_now (Some sample_ledger) fresh_world = Inr w' \<and>
         localStorage w' STORAGE_KEY = Some ''<ledger>'' \<and>
         localStorage w' BACKUP_KEY = Some ''<other>'' \<and>
         sessionStorage w' SESSION_KEY = Some ''<ledger>'' \<and>
         localStorage w' META_KEY = Some ''<other>'' \<and>
         events w' = [])"
proof -
  have q1: "quota_exceeded primary_full = (\<lambda>a k v. a = Local \<and> k = STORAGE_KEY)"
    and q2: "quota_exceeded sample_platform = (\<lambda>a k v. False)"
    by (simp_all add: primary_full_def sample_platform_def)
  have t1: "text_of primary_full (Some sample_ledger) = ''<ledger>''"
    and t2: "text_of sample_platform (Some sample_ledger) = ''<ledger>''"
    by (simp_all add: text_of_def primary_full_def sample_platform_def)
  have b2: "JSON_stringify sample_platform (backupData sample_now (Some sample_ledger)) = ''<other>''"
    by (simp add: sample_platform_def backupData_def sample_ledger_def)
  have m2: "JSON_stringify sample_platform critical = ''<other>''"
    if "criticalData sample_platform sample_now (Some sample_ledger) = Inr critical" for critical
  proof -
    from that have "critical =
        JObj [(''transactionCount'', JNum 1), (''categoryCount'', JNum 1),
              (''lastSaved'', JStr sample_now),
              (''checksum'', JNum (of_nat (length (JSON_stringify sample_platform sample_ledger))))]"
      by (simp add: sample_critical)
    then show ?thesis
      by (simp add: sample_platform_def sample_ledger_def)
  qed
  from saveData_write_sequence [OF sample_is_ledger, of primary_full sample_now fresh_world]
  obtain w1 where s1: "saveData primary_full sample_now (Some sample_ledger) fresh_world = Inr w1"
    and r1: "localStorage w1 = Map.empty \<and> sessionStorage w1 = [SESSION_KEY \<mapsto> ''<ledger>'']"
    by (auto simp: Let_def q1 t1 fresh_world_def)
  from saveData_write_sequence [OF sample_is_ledger, of sample_platform sample_now fresh_world]
  obtain w2 critical where
    s2: "saveData sample_platform sample_now (Some sample_ledger) fresh_world = Inr w2"
    and c2: "criticalData sample_platform sample_now (Some sample_ledger) = Inr critical"
    and r2: "localStorage w2 STORAGE_KEY = Some ''<ledger>'' \<and>
         localStorage w2 BACKUP_KEY = Some ''<other>'' \<and>
         sessionStorage w2 SESSION_KEY = Some ''<ledger>'' \<and>
         localStorage w2 META_KEY = Some (JSON_stringify sample_platform critical) \<and>
         events w2 = events fresh_world"
    by (auto simp: Let_def q2 t2 b2)
  from r2 m2 [OF c2] have r2': "localStorage w2 STORAGE_KEY = Some ''<ledger>'' \<and>
         localStorage w2 BACKUP_KEY = Some ''<other>'' \<and>
         sessionStorage w2 SESSION_KEY = Some ''<ledger>'' \<and>
         localStorage w2 META_KEY = Some ''<other>'' \<and>
         events w2 = []"
    by (simp add: fresh_world_def)
  from sample_is_ledger s1 r1 s2 r2' show ?thesis by blast
qed

lemma getItem_put:
  "getItem a k (put a' k' v w) = (if a = a' \<and> k = k' then Some v else getItem a k w)"
  by (auto simp: getItem_def put_def split: area.splits)

section \<open>Properties of the import and of the export\<close>

lemma get_prop_field:
  "k \<noteq> ''length'' \<Longrightarrow>
   get_prop (Some v) k = (if v = JNull then Inl TypeError else Inr (field_of (Some v) k))"
  by (cases v) (simp_all add: field_of_def)

lemma get_prop_truthy: "truthy x \<Longrightarrow> \<exists>y. get_prop x k = Inr y"
  by (cases x rule: truthy.cases) simp_all

lemma import_message_total:
  assumes "import_accepts v"
  shows "\<exists>msg. import_message P v = Inr msg"
proof -
  from assms have t: "truthy (field_of (Some v) ''transactions'')"
    and c: "truthy (field_of (Some v) ''categories'')"
    by (simp_all add: import_accepts_def)
  from t have nn: "v \<noteq> JNull" by (auto simp: field_of_def)
  from get_prop_truthy [OF t] obtain n where n: "get_prop (field_of (Some v) ''transactions'') ''length'' = Inr n"
    by blast
  from get_prop_truthy [OF c] obtain m where m: "get_prop (field_of (Some v) ''categories'') ''length'' = Inr m"
    by blast
  from nn n m show ?thesis
    by (simp add: import_message_def andThen_def get_prop_field)
qed

lemma saveData_total: "\<exists>w'. saveData P now input w = Inr w'"
  by (simp add: saveData_def Let_def split: sum.splits prod.splits)

lemma local_emit [simp]: "localStorage (emit e w) = localStorage w"
  by (simp add: emit_def)

lemma session_emit [simp]: "sessionStorage (emit e w) = sessionStorage w"
  by (simp add: emit_def)

lemma trackActivity_other_key:
  "k \<noteq> LIVE_TRACKING_KEY \<Longrightarrow> getItem Local k (trackActivity P now act w) = getItem Local k w"
  by (auto simp: trackActivity_def saveLiveTrackingData_def getLiveTrackingData_def setItem_def
      getItem_put console_error_def Let_def split: option.splits sum.splits prod.splits)

lemma addNotification_other_key:
  "k \<noteq> NOTIFICATIONS_KEY \<Longrightarrow>
   getItem Local k (addNotification P fresh now ttl msg typ w) = getItem Local k w"
  by (auto simp: addNotification_def saveNotifications_def getNotifications_def setItem_def
      getItem_put console_error_def Let_def split: option.splits sum.splits prod.splits)

lemma App_handleSaveData_result:
  "\<exists>a'. App_handleSaveData P now v a = Inr a' \<and> data a' = v \<and>
        notificationSettings a' = notificationSettings a \<and>
        (\<not> quota_exceeded P Local STORAGE_KEY (JSON_stringify P v) \<longrightarrow>
           getItem Local STORAGE_KEY (browser a') = Some (JSON_stringify P v))"
proof -
  obtain w1 where w1: "saveData P now (Some v) (browser a) = Inr w1"
    using saveData_total by blast
  then show ?thesis
    by (auto simp: App_handleSaveData_def Let_def seq_def setItem_def getItem_put console_error_def
        key_defs split: sum.splits prod.splits)
qed

lemma App_handleImport_result:
  assumes "import_accepts v"
  shows "\<exists>a'. App_handleImport P now fresh v a = Inr a' \<and> data a' = v \<and>
        (\<not> quota_exceeded P Local STORAGE_KEY (JSON_stringify P v) \<longrightarrow>
           getItem Local STORAGE_KEY (browser a') = Some (JSON_stringify P v))"
proof -
  from App_handleSaveData_result [of P now v a] obtain a1 where
    a1: "App_handleSaveData P now v a = Inr a1" "data a1 = v"
      "\<not> quota_exceeded P Local STORAGE_KEY (JSON_stringify P v) \<longrightarrow>
         getItem Local STORAGE_KEY (browser a1) = Some (JSON_stringify P v)"
    by blast
  from import_message_total [OF assms] obtain msg where msg: "import_message P v = Inr msg"
    by blast
  have k1: "STORAGE_KEY \<noteq> LIVE_TRACKING_KEY" and k2: "STORAGE_KEY \<noteq> NOTIFICATIONS_KEY"
    by (simp_all add: key_defs)
  from a1 msg show ?thesis
    by (simp add: App_handleImport_def seq_def Let_def
        trackActivity_other_key [OF k1] addNotification_other_key [OF k2])
qed

text \<open>
  Claim C7. A file that does not parse, and a payload without a truthy transactions field or
  without a truthy categories field, is rejected: one alert is shown, and the ledger in
  memory and both storages are as before. (The payload \<^verbatim>\<open>null\<close> gets the alert of the
  parse error, since reading its field throws.) A payload with both fields truthy becomes
  the ledger in memory as it is, whatever the ledger was before, and it is what the primary
  location holds afterwards when the storage accepts that write.
\<close>

theorem import_rejects_or_replaces:
  "(case JSON_parse P content of
      Inl e \<Rightarrow>
        rejected_with ''Error importing data. Please check the file format.'' a
          (ExportImport_onload P now fresh content a)
    | Inr v \<Rightarrow>
        if import_accepts v then
          data (ExportImport_onload P now fresh content a) = v \<and>
          (\<not> quota_exceeded P Local STORAGE_KEY (JSON_stringify P v) \<longrightarrow>
             getItem Local STORAGE_KEY (browser (ExportImport_onload P now fresh content a)) =
               Some (JSON_stringify P v))
        else
          rejected_with
            (if v = JNull then ''Error importing data. Please check the file format.''
             else ''Invalid file format. Please select a valid backup file.'') a
            (ExportImport_onload P now fresh content a))"
proof (cases "JSON_parse P content")
  case (Inl e)
  then show ?thesis
    by (simp add: ExportImport_onload_def ExportImport_onload_try_def rejected_with_def
        app_alert_def alert_def emit_def)
next
  case (Inr v)
  show ?thesis
  proof (cases "import_accepts v")
    case True
    then have nn: "v \<noteq> JNull" by (auto simp: import_accepts_def field_of_def)
    from App_handleImport_result [OF True, of P now fresh a] obtain a' where
      "App_handleImport P now fresh v a = Inr a'" "data a' = v"
      "\<not> quota_exceeded P Local STORAGE_KEY (JSON_stringify P v) \<longrightarrow>
         getItem Local STORAGE_KEY (browser a') = Some (JSON_stringify P v)"
      by blast
    with Inr True nn show ?thesis
      by (simp add: ExportImport_onload_def ExportImport_onload_try_def get_prop_field
          import_accepts_def)
  next
    case False
    with Inr show ?thesis
      by (auto simp: ExportImport_onload_def ExportImport_onload_try_def get_prop_field
          import_accepts_def rejected_with_def app_alert_def alert_def emit_def)
  qed
qed

theorem import_rejects_or_replaces_witness:
  "JSON_parse sample_platform ''not json'' = Inl SyntaxError \<and>
   rejected_with ''Error importing data. Please check the file format.'' sample_app
     (ExportImport_onload sample_platform sample_now ''n1'' ''not json'' sample_app) \<and>
   JSON_parse sample_platform ''<backup>'' = Inr sample_backup \<and>
   field_of (Some sample_backup) ''categories'' = None \<and>
   rejected_with ''Invalid file format. Please select a valid backup file.'' sample_app
     (ExportImport_onload sample_platform sample_now ''n1'' ''<backup>'' sample_app) \<and>
   JSON_parse sample_platform ''<ledger>'' = Inr sample_ledger \<and>
   import_accepts sample_ledger \<and>
   data (ExportImport_onload sample_platform sample_now ''n1'' ''<ledger>'' sample_app) = sample_ledger \<and>
   getItem Local STORAGE_KEY
     (browser (ExportImport_onload sample_platform sample_now ''n1'' ''<ledger>'' sample_app)) =
     Some ''<ledger>''"
proof -
  have p1: "JSON_parse sample_platform ''not json'' = Inl SyntaxError"
    and p2: "JSON_parse sample_platform ''<backup>'' = Inr sample_backup"
    and p3: "JSON_parse sample_platform ''<ledger>'' = Inr sample_ledger"
    by (simp_all add: sample_platform_def)
  have f: "field_of (Some sample_backup) ''categories'' = None"
    by (simp add: field_of_def sample_backup_def)
  then have n2: "\<not> import_accepts sample_backup" "sample_backup \<noteq> JNull"
    by (simp_all add: import_accepts_def sample_backup_def)
  have a3: "import_accepts sample_ledger"
    by (simp add: import_accepts_def field_of_def sample_ledger_def sample_transactions_def
        sample_categories_def)
  have q: "\<not> quota_exceeded sample_platform Local STORAGE_KEY (JSON_stringify sample_platform sample_ledger)"
    "JSON_stringify sample_platform sample_ledger = ''<ledger>''"
    by (simp_all add: sample_platform_def)
  show ?thesis
    using p1 p2 p3 f n2 a3 q
      import_rejects_or_replaces [where P = sample_platform and content = "''not json''"
        and now = sample_now and fresh = "''n1''" and a = sample_app]
      import_rejects_or_replaces [where P = sample_platform and content = "''<backup>''"
        and now = sample_now and fresh = "''n1''" and a = sample_app]
      import_rejects_or_replaces [where P = sample_platform and content = "''<ledger>''"
        and now = sample_now and fresh = "''n1''" and a = sample_app]
    by simp
qed

subsection \<open>The JSON codec reads back what it writes\<close>

text \<open>
  The text of a number reads back as the number, in front of whatever may follow a value.
\<close>

lemma digit_nth: "n < 10 \<Longrightarrow> is_digit (''0123456789'' ! n) \<and> digit_val (''0123456789'' ! n) = n"
proof -
  assume "n < 10"
  then have "n \<in> {0,1,2,3,4,5,6,7,8,9}" by auto
  then show ?thesis by (auto simp: is_digit_def digit_val_def)
qed

lemma digit_nth_zero: "n < 10 \<Longrightarrow> (''0123456789'' ! n = CHR ''0'') = (n = 0)"
proof -
  assume "n < 10"
  then have "n \<in> {0,1,2,3,4,5,6,7,8,9}" by auto
  then show ?thesis by auto
qed

lemma decimal_small: "n < 10 \<Longrightarrow> decimal n = [''0123456789'' ! n]"
  by (subst decimal.simps) (simp del: decimal.simps)

lemma decimal_big:
  "\<not> n < 10 \<Longrightarrow> decimal n = decimal (n div 10) @ [''0123456789'' ! (n mod 10)]"
  by (subst decimal.simps) (simp del: decimal.simps)

lemma decimal_digits: "c \<in> set (decimal n) \<Longrightarrow> is_digit c"
proof (induction n rule: decimal.induct)
  case (1 n)
  show ?case
  proof (cases "n < 10")
    case True
    with "1.prems" show ?thesis by (simp add: decimal_small digit_nth del: decimal.simps)
  next
    case False
    from "1.prems" have "c \<in> set (decimal (n div 10)) \<or> c = ''0123456789'' ! (n mod 10)"
      by (auto simp add: decimal_big [OF False] simp del: decimal.simps)
    with False "1.IH" digit_nth [of "n mod 10"] show ?thesis
      by (auto simp del: decimal.simps)
  qed
qed

lemma digits_val_append: "digits_val (xs @ [c]) = digits_val xs * 10 + digit_val c"
  by (simp add: digits_val_def)

lemma digits_val_decimal: "digits_val (decimal n) = n"
proof (induction n rule: decimal.induct)
  case (1 n)
  show ?case
  proof (cases "n < 10")
    case True
    then show ?thesis by (simp add: decimal_small digits_val_def digit_nth del: decimal.simps)
  next
    case False
    with "1.IH" digit_nth [of "n mod 10"] show ?thesis
      by (simp add: decimal_big [OF False] digits_val_append del: decimal.simps)
  qed
qed

lemma decimal_nonempty: "decimal n \<noteq> []"
  by (cases "n < 10") (simp_all add: decimal_small decimal_big del: decimal.simps)

lemma hd_decimal: "(hd (decimal n) = CHR ''0'') = (n = 0)"
proof (induction n rule: decimal.induct)
  case (1 n)
  show ?case
  proof (cases "n < 10")
    case True
    then show ?thesis by (simp add: decimal_small digit_nth_zero del: decimal.simps)
  next
    case False
    with "1.IH" decimal_nonempty [of "n div 10"] show ?thesis
      by (simp add: decimal_big [OF False] del: decimal.simps)
  qed
qed

lemma length_decimal: "(1 < length (decimal n)) = (10 \<le> n)"
proof (cases "n < 10")
  case True
  then show ?thesis by (simp add: decimal_small del: decimal.simps)
next
  case False
  with decimal_nonempty [of "n div 10"] show ?thesis
    by (cases "decimal (n div 10)") (simp_all add: decimal_big [OF False] del: decimal.simps)
qed

lemma digits_val_zeros: "digits_val (replicate z CHR ''0'' @ s) = digits_val s"
proof (induction z)
  case 0
  then show ?case by simp
next
  case (Suc z)
  have "digits_val (CHR ''0'' # xs) = digits_val xs" for xs
    by (simp add: digits_val_def digit_val_def)
  with Suc show ?case by simp
qed

lemma is_digit_chars:
  "\<not> is_digit CHR ''-''" "\<not> is_digit CHR ''.''" "\<not> is_digit CHR '',''"
  "\<not> is_digit (CHR 0x0A)" "is_digit CHR ''0''"
  by (simp_all add: is_digit_def)

lemma takeWhile_digits:
  assumes "\<forall>c \<in> set ds. is_digit c" and "rest = [] \<or> \<not> is_digit (hd rest)"
  shows "takeWhile is_digit (ds @ rest) = ds" and "dropWhile is_digit (ds @ rest) = rest"
proof -
  from assms(2) have t: "takeWhile is_digit rest = []" and d: "dropWhile is_digit rest = rest"
    by (cases rest; auto)+
  from assms(1) t show "takeWhile is_digit (ds @ rest) = ds" by (simp add: takeWhile_append2)
  from assms(1) d show "dropWhile is_digit (ds @ rest) = rest" by (simp add: dropWhile_append2)
qed

lemma delimited_cases:
  "delimited rest \<Longrightarrow> rest = [] \<or> (\<exists>r. rest = CHR '','' # r) \<or> (\<exists>r. rest = CHR 0x0A # r)"
  by (cases rest) (auto simp: delimited_def)

lemma read_exponent_delimited: "delimited rest \<Longrightarrow> read_exponent rest = Some (0, rest)"
  by (drule delimited_cases) (auto simp: read_exponent_def)

lemma read_fraction_none: "delimited rest \<Longrightarrow> read_fraction rest = Some ([], rest)"
  by (drule delimited_cases) (auto simp: read_fraction_def)

lemma read_fraction_digits:
  assumes "\<forall>c \<in> set ds. is_digit c" and "ds \<noteq> []" and "delimited rest"
  shows "read_fraction (CHR ''.'' # ds @ rest) = Some (ds, rest)"
proof -
  from assms(3) have "rest = [] \<or> \<not> is_digit (hd rest)"
    by (auto dest!: delimited_cases simp: is_digit_chars)
  from takeWhile_digits [OF assms(1) this] assms(2) show ?thesis
    by (simp add: read_fraction_def)
qed

lemma read_number_text:
  assumes dec: "is_decimal n" and rest: "delimited rest"
  shows "read_number (number_text n @ rest) = Some (n, rest)"
proof -
  obtain a b where q: "quotient_of n = (a, b)" by (cases "quotient_of n")
  from dec q obtain k where k: "decimal_places n = Some k" and dvd: "b dvd 10 ^ k"
    by (auto simp: is_decimal_def decimal_places_def find_Some_iff)
  from q have b: "0 < b" by (rule quotient_of_denom_pos)
  from q have n: "n = of_int a / of_int b" by (rule quotient_of_div)
  define c where "c = (10::int) ^ k div b"
  from dvd have bc: "b * c = 10 ^ k" by (simp add: c_def)
  with b have c: "0 < c" by (metis zero_less_mult_pos zero_less_numeral zero_less_power)
  define m where "m = nat (\<bar>a\<bar> * c)"
  define ds where "ds = decimal m"
  define padded where "padded = replicate (Suc k - length ds) CHR ''0'' @ ds"
  define wdigits where "wdigits = take (length padded - k) padded"
  define fdigits where "fdigits = drop (length padded - k) padded"
  define tail where "tail = (if k = 0 then [] else CHR ''.'' # fdigits)"
  have shape: "number_text n = (if a < 0 then ''-'' else []) @ wdigits @ tail"
    by (simp add: number_text_def q k Let_def c_def m_def ds_def padded_def wdigits_def
                  fdigits_def tail_def del: decimal.simps)
  have digits: "\<forall>c \<in> set padded. is_digit c"
    by (auto simp: padded_def ds_def is_digit_chars dest: decimal_digits simp del: decimal.simps)
  have len: "k < length padded" by (simp add: padded_def del: decimal.simps)
  have wd: "\<forall>c \<in> set wdigits. is_digit c" using digits
    by (auto simp: wdigits_def dest: in_set_takeD)
  have fd: "\<forall>c \<in> set fdigits. is_digit c" using digits
    by (auto simp: fdigits_def dest: in_set_dropD)
  have wne: "wdigits \<noteq> []" using len by (auto simp: wdigits_def)
  have flen: "length fdigits = k" using len by (simp add: fdigits_def)
  have whole: "wdigits @ fdigits = padded" by (simp add: wdigits_def fdigits_def)
  have val: "digits_val (wdigits @ fdigits) = m"
    by (simp add: whole padded_def digits_val_zeros ds_def digits_val_decimal del: decimal.simps)
  have lead: "\<not> (1 < length wdigits \<and> hd wdigits = CHR ''0'')"
  proof
    assume l: "1 < length wdigits \<and> hd wdigits = CHR ''0''"
    show False
    proof (cases "k < length ds")
      case True
      then have p: "padded = ds" by (simp add: padded_def)
      with l True have "1 < length ds" and "hd ds = CHR ''0''"
        by (auto simp: wdigits_def hd_take)
      then have "10 \<le> m" and "m = 0"
        using length_decimal [of m] hd_decimal [of m] by (simp_all add: ds_def del: decimal.simps)
      then show False by simp
    next
      case False
      then have "length padded = Suc k" by (simp add: padded_def)
      with l show False by (simp add: wdigits_def)
    qed
  qed
  have tail_start: "tail @ rest = [] \<or> \<not> is_digit (hd (tail @ rest))"
    using rest by (auto simp: tail_def is_digit_chars dest!: delimited_cases)
  have tw: "takeWhile is_digit (wdigits @ tail @ rest) = wdigits"
    and dw: "dropWhile is_digit (wdigits @ tail @ rest) = tail @ rest"
    using takeWhile_digits [OF wd tail_start] by simp_all
  have fraction: "read_fraction (tail @ rest) = Some (fdigits, rest)"
  proof (cases "k = 0")
    case True
    with flen rest show ?thesis by (simp add: tail_def read_fraction_none)
  next
    case False
    with flen have "fdigits \<noteq> []" by auto
    from read_fraction_digits [OF fd this rest] False show ?thesis by (simp add: tail_def)
  qed
  have "(of_nat m :: rat) = of_int \<bar>a\<bar> * of_int c"
    using c by (simp add: m_def)
  moreover have "(10::rat) ^ k = of_int b * of_int c"
    using bc by (metis of_int_mult of_int_numeral of_int_power)
  ultimately have mag: "(of_nat m :: rat) / 10 ^ k = \<bar>n\<bar>"
    using b c by (simp add: n abs_div)
  have sign: "(a < 0) = (n < 0)" using b by (simp add: n divide_less_0_iff)
  have nominus: "hd (wdigits @ tail @ rest) \<noteq> CHR ''-''"
    using wne wd by (cases wdigits) (auto simp: is_digit_chars)
  show ?thesis
  proof (cases "a < 0")
    case True
    with shape have "number_text n @ rest = CHR ''-'' # wdigits @ tail @ rest" by simp
    with True sign lead show ?thesis
      by (simp add: read_number_def tw dw wne fraction read_exponent_delimited [OF rest]
                    val flen mag scale_def)
  next
    case False
    with shape have t: "number_text n @ rest = wdigits @ tail @ rest" by simp
    obtain w ws where w: "wdigits = w # ws" using wne by (cases wdigits) auto
    with nominus have "w \<noteq> CHR ''-''" by simp
    then have "(case wdigits @ tail @ rest of [] \<Rightarrow> (False, wdigits @ tail @ rest)
                | c # r \<Rightarrow> if c = CHR ''-'' then (True, r) else (False, wdigits @ tail @ rest))
               = (False, wdigits @ tail @ rest)"
      by (simp add: w)
    with False sign lead show ?thesis
      by (simp add: t read_number_def tw dw wne fraction read_exponent_delimited [OF rest]
                    val flen mag scale_def)
  qed
qed

text \<open>
  A quoted string reads back as the string.
\<close>

lemma hex_val_digit: "d < 16 \<Longrightarrow> hex_val (hex_digit d) = Some d"
proof -
  assume "d < 16"
  then have "d = 0 \<or> d = 1 \<or> d = 2 \<or> d = 3 \<or> d = 4 \<or> d = 5 \<or> d = 6 \<or> d = 7 \<or>
             d = 8 \<or> d = 9 \<or> d = 10 \<or> d = 11 \<or> d = 12 \<or> d = 13 \<or> d = 14 \<or> d = 15"
    by arith
  then show ?thesis by (auto simp: hex_val_def hex_digit_def)
qed

lemma read_escape_char: "read_string (escape_char c @ t) = cons_char c (read_string t)"
proof -
  have small: "(of_char c :: nat) < 32 \<Longrightarrow> (of_char c :: nat) div 16 < 16" by simp
  have u: "(of_char c :: nat) < 32 \<Longrightarrow>
           code_unit [CHR ''0'', CHR ''0'', hex_digit ((of_char c :: nat) div 16),
                      hex_digit ((of_char c :: nat) mod 16)] = Some c"
    using hex_val_digit [of "(of_char c :: nat) div 16"] hex_val_digit [of "(of_char c :: nat) mod 16"]
    by (simp add: code_unit_def hex_val_def [of "CHR ''0''"])
  show ?thesis
    by (simp add: escape_char_def unescape_def u)
qed

lemma read_string_quoted:
  "read_string (concat (map escape_char s) @ CHR 0x22 # rest) = Some (s, rest)"
  by (induction s) (simp_all add: read_escape_char cons_char_def)

text \<open>
  White space, and how the texts of values begin.
\<close>

lemma number_text_head:
  "\<exists>c r. number_text n = c # r \<and> (c = CHR ''-'' \<or> is_digit c)"
proof -
  obtain a b where q: "quotient_of n = (a, b)" by (cases "quotient_of n")
  define k where "k = (case decimal_places n of Some k \<Rightarrow> k | None \<Rightarrow> 0)"
  define ds where "ds = decimal (nat (\<bar>a\<bar> * (10 ^ k div b)))"
  define padded where "padded = replicate (Suc k - length ds) CHR ''0'' @ ds"
  define wdigits where "wdigits = take (length padded - k) padded"
  define tail where "tail = (if k = 0 then [] else CHR ''.'' # drop (length padded - k) padded)"
  have shape: "number_text n = (if a < 0 then ''-'' else []) @ wdigits @ tail"
    by (simp add: number_text_def q k_def Let_def ds_def padded_def wdigits_def tail_def
             del: decimal.simps)
  have digits: "\<forall>c \<in> set padded. is_digit c"
    by (auto simp: padded_def ds_def is_digit_chars dest: decimal_digits simp del: decimal.simps)
  have len: "k < length padded" by (simp add: padded_def del: decimal.simps)
  have wd: "\<forall>c \<in> set wdigits. is_digit c" using digits
    by (auto simp: wdigits_def dest: in_set_takeD)
  have "wdigits \<noteq> []" using len by (auto simp: wdigits_def)
  then obtain w ws where "wdigits = w # ws" by (cases wdigits) auto
  with wd shape show ?thesis by (cases "a < 0") auto
qed

lemma skip_ws_nl: "skip_ws (nl j @ s) = skip_ws s"
proof -
  have "dropWhile is_ws (replicate j CHR '' '' @ s) = dropWhile is_ws s"
    by (induction j) (simp_all add: is_ws_def)
  then show ?thesis by (simp add: skip_ws_def nl_def is_ws_def)
qed

lemma skip_ws_space: "skip_ws (CHR '' '' # s) = skip_ws s"
  by (simp add: skip_ws_def is_ws_def)

lemma skip_ws_head: "\<not> is_ws c \<Longrightarrow> skip_ws (c # s) = c # s"
  by (simp add: skip_ws_def)

lemma parse_value_nl: "parse_value k (nl j @ s) = parse_value k s"
  by (cases k) (simp_all add: skip_ws_nl)

lemma parse_value_space: "parse_value k (CHR '' '' # s) = parse_value k s"
  by (cases k) (simp_all add: skip_ws_space)

lemma parse_elements_nl: "parse_elements k (nl j @ s) = parse_elements k s"
  by (cases k) (simp_all add: parse_value_nl)

lemma parse_members_nl: "parse_members k (nl j @ s) = parse_members k s"
  by (cases k) (simp_all add: skip_ws_nl)

lemma starts_value_append: "starts_value s \<Longrightarrow> starts_value (s @ t)"
  by (auto simp: starts_value_def)

lemma starts_value_number: "starts_value (number_text n)"
  using number_text_head [of n] by (auto simp: starts_value_def is_ws_def is_digit_def)

lemma starts_value_property: "starts_value (SerializeJSONProperty i v)"
  by (cases v) (auto simp: starts_value_number QuoteJSONString_def, auto simp: starts_value_def is_ws_def)

lemma starts_value_array: "xs \<noteq> [] \<Longrightarrow> starts_value (SerializeJSONArray i xs)"
proof (cases xs)
  case Nil
  assume "xs \<noteq> []"
  with Nil show ?thesis by simp
next
  case (Cons x ys)
  then show ?thesis
    by (cases ys) (simp_all add: starts_value_property starts_value_append)
qed

lemma starts_value_object:
  "kvs \<noteq> [] \<Longrightarrow> \<exists>r. SerializeJSONObject i kvs = CHR 0x22 # r"
proof (cases kvs)
  case Nil
  assume "kvs \<noteq> []"
  with Nil show ?thesis by simp
next
  case (Cons kv ys)
  then show ?thesis
    by (cases kv; cases ys) (simp_all add: QuoteJSONString_def)
qed

text \<open>
  The reader on the text of each kind of value.
\<close>

lemma parse_array:
  assumes "xs \<noteq> []"
  shows "parse_value (Suc f) (SerializeJSONProperty i (JArr xs) @ rest) =
         (case parse_elements f (SerializeJSONArray (i + 2) xs @ nl i @ CHR '']'' # rest) of
            None \<Rightarrow> None
          | Some (ys, r) \<Rightarrow> Some (JArr ys, r))"
proof -
  from starts_value_array [OF assms, of "i + 2"]
  obtain c r where c: "SerializeJSONArray (i + 2) xs = c # r"
      and ws: "\<not> is_ws c" and "c \<noteq> CHR '']''"
    by (auto simp: starts_value_def)
  with assms show ?thesis
    by (simp add: skip_ws_head [of "CHR ''[''"] is_ws_def [of "CHR ''[''"] skip_ws_nl skip_ws_head [OF ws])
qed

lemma parse_object:
  assumes "kvs \<noteq> []"
  shows "parse_value (Suc f) (SerializeJSONProperty i (JObj kvs) @ rest) =
         (case parse_members f (SerializeJSONObject (i + 2) kvs @ nl i @ CHR ''}'' # rest) of
            None \<Rightarrow> None
          | Some (ys, r) \<Rightarrow> Some (JObj (foldl CreateDataProperty [] ys), r))"
proof -
  from starts_value_object [OF assms, of "i + 2"]
  obtain r where c: "SerializeJSONObject (i + 2) kvs = CHR 0x22 # r" by auto
  with assms show ?thesis
    by (simp add: skip_ws_head [of "CHR ''{''"] is_ws_def [of "CHR ''{''"] skip_ws_nl
                  skip_ws_head [of "CHR 0x22"] is_ws_def [of "CHR 0x22"])
qed

lemma parse_number:
  assumes "is_decimal n" and "delimited rest"
  shows "parse_value (Suc f) (number_text n @ rest) = Some (JNum n, rest)"
proof -
  from number_text_head [of n] obtain c r where c: "number_text n = c # r"
      and d: "c = CHR ''-'' \<or> is_digit c" by auto
  from d have ws: "\<not> is_ws c" by (auto simp: is_ws_def is_digit_def)
  from d have other: "c \<noteq> CHR ''{''" "c \<noteq> CHR ''[''" "c \<noteq> CHR 0x22" "c \<noteq> CHR ''t''"
      "c \<noteq> CHR ''f''" "c \<noteq> CHR ''n''"
    by (auto simp: is_digit_def)
  from read_number_text [OF assms] have "read_number (c # r @ rest) = Some (n, rest)"
    by (simp add: c)
  with other show ?thesis by (simp add: c skip_ws_head [OF ws])
qed

lemma parse_string:
  "parse_value (Suc f) (QuoteJSONString s @ rest) = Some (JStr s, rest)"
  by (simp add: QuoteJSONString_def skip_ws_head [of "CHR 0x22"] is_ws_def [of "CHR 0x22"]
                read_string_quoted)

lemma skip_ws_delimiter:
  "skip_ws (CHR '','' # s) = CHR '','' # s" "skip_ws (CHR '']'' # s) = CHR '']'' # s"
  "skip_ws (CHR ''}'' # s) = CHR ''}'' # s" "skip_ws (CHR '':'' # s) = CHR '':'' # s"
  by (simp_all add: skip_ws_def is_ws_def)

lemma delimited_start: "delimited (CHR '','' # s)" "delimited (nl j @ s)" "delimited []"
  by (simp_all add: delimited_def nl_def)

lemma update_fresh: "k \<notin> fst ` set acc \<Longrightarrow> AList.update k v acc = acc @ [(k, v)]"
  by (induction acc) auto

lemma CreateDataProperty_distinct:
  "distinct (map fst (acc @ kvs)) \<Longrightarrow> foldl CreateDataProperty acc kvs = acc @ kvs"
proof (induction kvs arbitrary: acc)
  case Nil
  then show ?case by simp
next
  case (Cons kv kvs)
  from Cons.prems have "fst kv \<notin> fst ` set acc" by auto
  then have "CreateDataProperty acc kv = acc @ [kv]"
    by (simp add: CreateDataProperty_def update_fresh)
  with Cons.IH [of "acc @ [kv]"] Cons.prems show ?case by simp
qed

text \<open>
  The reader gives back every value with finite numbers and the text that follows it,
  whenever the fuel exceeds the size of the value.
\<close>

lemma parse_serialized:
  "(\<forall>f rest. size v < f \<longrightarrow> finite_numbers v \<longrightarrow> representable v \<longrightarrow> delimited rest \<longrightarrow>
      parse_value f (SerializeJSONProperty i v @ rest) = Some (v, rest))"
  "(\<forall>f j rest. xs \<noteq> [] \<longrightarrow> size_list size xs < f \<longrightarrow>
      list_all finite_numbers xs \<longrightarrow> list_all representable xs \<longrightarrow>
      parse_elements f (SerializeJSONArray i' xs @ nl j @ CHR '']'' # rest) = Some (xs, rest))"
  "(\<forall>f j rest. kvs \<noteq> [] \<longrightarrow> size_list (size_prod (\<lambda>x. 0) size) kvs < f \<longrightarrow>
      list_all (\<lambda>kv. finite_numbers (snd kv)) kvs \<longrightarrow> list_all (\<lambda>kv. representable (snd kv)) kvs \<longrightarrow>
      parse_members f (SerializeJSONObject i'' kvs @ nl j @ CHR ''}'' # rest) = Some (kvs, rest))"
proof (induction i v and i' xs and i'' kvs
       rule: SerializeJSONProperty_SerializeJSONArray_SerializeJSONObject.induct)
  case (1 indent)
  show ?case
  proof (intro allI impI)
    fix f :: nat and rest
    assume "size JNull < f"
    then obtain f' where "f = Suc f'" by (cases f) auto
    then show "parse_value f (SerializeJSONProperty indent JNull @ rest) = Some (JNull, rest)"
      by (simp add: skip_ws_def is_ws_def literal_def)
  qed
next
  case (2 indent b)
  show ?case
  proof (intro allI impI)
    fix f :: nat and rest
    assume "size (JBool b) < f"
    then obtain f' where "f = Suc f'" by (cases f) auto
    then show "parse_value f (SerializeJSONProperty indent (JBool b) @ rest) = Some (JBool b, rest)"
      by (simp add: skip_ws_def is_ws_def literal_def)
  qed
next
  case (3 indent n)
  show ?case
  proof (intro allI impI)
    fix f :: nat and rest
    assume "size (JNum n) < f" and "representable (JNum n)" and d: "delimited rest"
    then obtain f' where "f = Suc f'" and "is_decimal n" by (cases f) auto
    with d show "parse_value f (SerializeJSONProperty indent (JNum n) @ rest) = Some (JNum n, rest)"
      by (simp add: parse_number del: parse_value.simps)
  qed
next
  case (4 indent x)
  show ?case by simp
next
  case (5 indent s)
  show ?case
  proof (intro allI impI)
    fix f :: nat and rest
    assume "size (JStr s) < f"
    then obtain f' where "f = Suc f'" by (cases f) auto
    then show "parse_value f (SerializeJSONProperty indent (JStr s) @ rest) = Some (JStr s, rest)"
      by (simp add: parse_string del: parse_value.simps)
  qed
next
  case (6 indent xs)
  show ?case
  proof (intro allI impI)
    fix f :: nat and rest
    assume sz: "size (JArr xs) < f" and fin: "finite_numbers (JArr xs)"
       and rep: "representable (JArr xs)"
    then obtain f' where f: "f = Suc f'" by (cases f) auto
    show "parse_value f (SerializeJSONProperty indent (JArr xs) @ rest) = Some (JArr xs, rest)"
    proof (cases "xs = []")
      case True
      then show ?thesis
        by (simp add: f skip_ws_head [of "CHR ''[''"] is_ws_def [of "CHR ''[''"] skip_ws_delimiter)
    next
      case False
      from sz f have "size_list size xs < f'" by simp
      with 6 False fin rep
      have "parse_elements f' (SerializeJSONArray (indent + 2) xs @ nl indent @ CHR '']'' # rest)
            = Some (xs, rest)"
        by simp
      then show ?thesis unfolding f parse_array [OF False] by simp
    qed
  qed
next
  case (7 indent kvs)
  show ?case
  proof (intro allI impI)
    fix f :: nat and rest
    assume sz: "size (JObj kvs) < f" and fin: "finite_numbers (JObj kvs)"
       and rep: "representable (JObj kvs)"
    then obtain f' where f: "f = Suc f'" by (cases f) auto
    show "parse_value f (SerializeJSONProperty indent (JObj kvs) @ rest) = Some (JObj kvs, rest)"
    proof (cases "kvs = []")
      case True
      then show ?thesis
        by (simp add: f skip_ws_head [of "CHR ''{''"] is_ws_def [of "CHR ''{''"] skip_ws_delimiter)
    next
      case False
      from sz f have "size_list (size_prod (\<lambda>x. 0) size) kvs < f'" by simp
      with 7 False fin rep
      have "parse_members f' (SerializeJSONObject (indent + 2) kvs @ nl indent @ CHR ''}'' # rest)
            = Some (kvs, rest)"
        by simp
      moreover from rep have "foldl CreateDataProperty [] kvs = kvs"
        using CreateDataProperty_distinct [of "[]" kvs] by simp
      ultimately show ?thesis unfolding f parse_object [OF False] by simp
    qed
  qed
next
  case (8 indent)
  show ?case by simp
next
  case (9 indent x)
  show ?case
  proof (intro allI impI)
    fix f :: nat and j rest
    assume sz: "size_list size [x] < f" and fin: "list_all finite_numbers [x]"
       and rep: "list_all representable [x]"
    then obtain f' where f: "f = Suc f'" by (cases f) auto
    with sz have "size x < f'" by simp
    with 9 fin rep
    have "parse_value f' (SerializeJSONProperty indent x @ nl j @ CHR '']'' # rest)
          = Some (x, nl j @ CHR '']'' # rest)"
      by (simp add: delimited_start)
    then show "parse_elements f (SerializeJSONArray indent [x] @ nl j @ CHR '']'' # rest)
               = Some ([x], rest)"
      by (simp add: f skip_ws_nl skip_ws_delimiter)
  qed
next
  case (10 indent x y xs)
  show ?case
  proof (intro allI impI)
    fix f :: nat and j rest
    assume sz: "size_list size (x # y # xs) < f" and fin: "list_all finite_numbers (x # y # xs)"
       and rep: "list_all representable (x # y # xs)"
    then obtain f' where f: "f = Suc f'" by (cases f) auto
    let ?more = "SerializeJSONArray indent (y # xs) @ nl j @ CHR '']'' # rest"
    from sz f have "size x < f'" and sz': "size_list size (y # xs) < f'" by simp_all
    with 10 fin rep
    have "parse_value f' (SerializeJSONProperty indent x @ CHR '','' # nl indent @ ?more)
          = Some (x, CHR '','' # nl indent @ ?more)"
      by (simp add: delimited_start)
    moreover from 10 sz' fin rep have "parse_elements f' ?more = Some (y # xs, rest)"
      by simp
    ultimately
    show "parse_elements f (SerializeJSONArray indent (x # y # xs) @ nl j @ CHR '']'' # rest)
          = Some (x # y # xs, rest)"
      by (simp add: f skip_ws_delimiter parse_elements_nl)
  qed
next
  case (11 indent)
  show ?case by simp
next
  case (12 indent k v)
  show ?case
  proof (intro allI impI)
    fix f :: nat and j rest
    assume sz: "size_list (size_prod (\<lambda>x. 0) size) [(k, v)] < f"
       and fin: "list_all (\<lambda>kv. finite_numbers (snd kv)) [(k, v)]"
       and rep: "list_all (\<lambda>kv. representable (snd kv)) [(k, v)]"
    then obtain f' where f: "f = Suc f'" by (cases f) auto
    with sz have "size v < f'" by simp
    with 12 fin rep
    have "parse_value f' (SerializeJSONProperty indent v @ nl j @ CHR ''}'' # rest)
          = Some (v, nl j @ CHR ''}'' # rest)"
      by (simp add: delimited_start)
    then show "parse_members f (SerializeJSONObject indent [(k, v)] @ nl j @ CHR ''}'' # rest)
               = Some ([(k, v)], rest)"
      by (simp add: f QuoteJSONString_def skip_ws_head [of "CHR 0x22"] is_ws_def [of "CHR 0x22"]
                    read_string_quoted skip_ws_delimiter parse_value_space skip_ws_nl)
  qed
next
  case (13 indent k v y kvs)
  show ?case
  proof (intro allI impI)
    fix f :: nat and j rest
    assume sz: "size_list (size_prod (\<lambda>x. 0) size) ((k, v) # y # kvs) < f"
       and fin: "list_all (\<lambda>kv. finite_numbers (snd kv)) ((k, v) # y # kvs)"
       and rep: "list_all (\<lambda>kv. representable (snd kv)) ((k, v) # y # kvs)"
    then obtain f' where f: "f = Suc f'" by (cases f) auto
    let ?more = "SerializeJSONObject indent (y # kvs) @ nl j @ CHR ''}'' # rest"
    from sz f have "size v < f'" and sz': "size_list (size_prod (\<lambda>x. 0) size) (y # kvs) < f'"
      by simp_all
    with 13 fin rep
    have "parse_value f' (SerializeJSONProperty indent v @ CHR '','' # nl indent @ ?more)
          = Some (v, CHR '','' # nl indent @ ?more)"
      by (simp add: delimited_start)
    moreover from 13 sz' fin rep have "parse_members f' ?more = Some (y # kvs, rest)"
      by simp
    ultimately
    show "parse_members f (SerializeJSONObject indent ((k, v) # y # kvs) @ nl j @ CHR ''}'' # rest)
          = Some ((k, v) # y # kvs, rest)"
      by (simp add: f QuoteJSONString_def skip_ws_head [of "CHR 0x22"] is_ws_def [of "CHR 0x22"]
                    read_string_quoted skip_ws_delimiter parse_value_space parse_members_nl)
  qed
qed

text \<open>
  The length of the text of a value exceeds the size of the value: \<open>json_parse\<close> reads
  the text of \<open>json_stringify_pretty\<close> back.
\<close>

lemma number_text_nonempty: "0 < length (number_text n)"
  using number_text_head [of n] by auto

lemma length_serialized:
  "size v < length (SerializeJSONProperty i v)"
  "xs \<noteq> [] \<longrightarrow> size_list size xs \<le> length (SerializeJSONArray i' xs)"
  "kvs \<noteq> [] \<longrightarrow> size_list (size_prod (\<lambda>x. 0) size) kvs \<le> length (SerializeJSONObject i'' kvs)"
proof (induction i v and i' xs and i'' kvs
       rule: SerializeJSONProperty_SerializeJSONArray_SerializeJSONObject.induct)
  case (3 indent n)
  show ?case using number_text_nonempty [of n] by simp
next
  case (5 indent s)
  show ?case by (simp add: QuoteJSONString_def)
next
  case (6 indent xs)
  then show ?case by (cases "xs = []") (simp_all add: nl_def)
next
  case (7 indent kvs)
  then show ?case by (cases "kvs = []") (simp_all add: nl_def)
next
  case (12 indent k v)
  then show ?case by (simp add: QuoteJSONString_def)
next
  case (13 indent k v y kvs)
  then show ?case by (simp add: QuoteJSONString_def nl_def)
qed (simp_all add: nl_def)

lemma json_parse_stringify:
  assumes "finite_numbers v" and "representable v"
  shows "json_parse (json_stringify_pretty v) = Inr v"
proof -
  have "size v < length (SerializeJSONProperty 0 v)" by (rule length_serialized)
  with assms parse_serialized(1) [of v 0]
  have "parse_value (length (SerializeJSONProperty 0 v)) (SerializeJSONProperty 0 v @ []) = Some (v, [])"
    by (simp add: delimited_start del: append_Nil2)
  then show ?thesis by (simp add: json_parse_def json_stringify_pretty_def skip_ws_def)
qed

text \<open>
  The numbers that \<open>representable\<close> admits are the decimal fractions, all of them: the
  search for the number of decimals ends below the denominator.
\<close>

lemma dvd_power_ten:
  fixes b :: int
  shows "0 < b \<Longrightarrow> b dvd 10 ^ k \<Longrightarrow> b dvd 10 ^ nat b"
proof (induction "nat b" arbitrary: b rule: less_induct)
  case less
  show ?case
  proof (cases "b = 1")
    case True
    then show ?thesis by simp
  next
    case False
    define g where "g = gcd b 10"
    have g1: "g \<noteq> 1"
    proof
      assume "g = 1"
      then have "coprime b 10" by (simp add: g_def coprime_iff_gcd_eq_1)
      then have "coprime b (10 ^ k)" by simp
      with less.prems(2) have "is_unit b" using coprime_common_divisor [of b "10 ^ k" b] by simp
      with less.prems(1) False show False by simp
    qed
    have gpos: "0 < g" using less.prems(1) by (simp add: g_def)
    with g1 have g2: "2 \<le> g" by simp
    have "g dvd b" by (simp add: g_def)
    then obtain b' where b': "b = g * b'" by (auto simp: dvd_def)
    with less.prems(1) gpos have b'pos: "0 < b'" by (simp add: zero_less_mult_iff)
    have "b' dvd b" by (simp add: b')
    from this less.prems(2) have d: "b' dvd 10 ^ k" by (rule dvd_trans)
    from g2 b'pos have "2 * b' \<le> g * b'" by (simp only: mult_le_cancel_right) simp
    with b'pos have lt: "b' < b" by (simp add: b')
    with b'pos have "nat b' < nat b" by simp
    from less.hyps [OF this b'pos d] have "b' dvd 10 ^ nat b'" .
    moreover have "g dvd 10" by (simp add: g_def)
    ultimately have "g * b' dvd 10 * 10 ^ nat b'" by (rule mult_dvd_mono [rotated])
    then have "b dvd 10 ^ Suc (nat b')" by (simp add: b')
    moreover from lt b'pos have "Suc (nat b') \<le> nat b" by simp
    then have "(10::int) ^ Suc (nat b') dvd 10 ^ nat b" by (rule le_imp_power_dvd)
    ultimately show ?thesis by (rule dvd_trans)
  qed
qed

lemma is_decimal_iff: "is_decimal n \<longleftrightarrow> (\<exists>k. snd (quotient_of n) dvd 10 ^ k)"
proof -
  obtain a b where q: "quotient_of n = (a, b)" by (cases "quotient_of n")
  from q have b: "0 < b" by (rule quotient_of_denom_pos)
  have "(\<exists>k. b dvd 10 ^ k) \<longleftrightarrow> (\<exists>k \<in> set [0..<Suc (nat b)]. b dvd 10 ^ k)"
  proof
    assume "\<exists>k. b dvd 10 ^ k"
    then obtain k where "b dvd 10 ^ k" ..
    from dvd_power_ten [OF b this] have "b dvd 10 ^ nat b" .
    moreover have "nat b \<in> set [0..<Suc (nat b)]" by simp
    ultimately show "\<exists>k \<in> set [0..<Suc (nat b)]. b dvd 10 ^ k" ..
  next
    assume "\<exists>k \<in> set [0..<Suc (nat b)]. b dvd 10 ^ k"
    then show "\<exists>k. b dvd 10 ^ k" by blast
  qed
  then show ?thesis
    by (simp add: is_decimal_def decimal_places_def q find_None_iff Bex_def del: upt_Suc set_upt)
qed

lemma is_decimal_fraction: "is_decimal (of_int a / 10 ^ k)"
proof -
  obtain p q where q: "quotient_of (of_int a / 10 ^ k) = (p, q)"
    by (cases "quotient_of (of_int a / 10 ^ k)")
  from q have pos: "0 < q" by (rule quotient_of_denom_pos)
  from q have co: "coprime p q" by (rule quotient_of_coprime)
  from q have "(of_int a :: rat) / 10 ^ k = of_int p / of_int q" by (rule quotient_of_div)
  with pos have "(of_int a :: rat) * of_int q = of_int p * 10 ^ k"
    by (simp add: field_simps)
  then have "(of_int (a * q) :: rat) = of_int (p * 10 ^ k)" by simp
  then have "a * q = p * 10 ^ k" by (simp only: of_int_eq_iff)
  then have "q dvd p * 10 ^ k" by (metis dvd_triv_right)
  with co have "q dvd 10 ^ k" by (simp add: coprime_dvd_mult_right_iff coprime_commute)
  with q show ?thesis unfolding is_decimal_iff by (simp only: snd_conv) blast
qed

text \<open>
  The import of a text that parses to a ledger which passes the validation: the ledger in
  memory becomes the parsed one.
\<close>

lemma import_of_parsed:
  assumes parsed: "JSON_parse P content = Inr ledger"
      and acc: "import_accepts ledger"
  shows "(\<exists>a'. ExportImport_onload_try P now' fresh content a = Inr a' \<and> data a' = ledger) \<and>
         data (ExportImport_onload P now' fresh content a) = ledger"
proof -
  from acc have nn: "ledger \<noteq> JNull" by (auto simp: import_accepts_def field_of_def)
  from App_handleImport_result [OF acc, of P now' fresh a] obtain a' where
    a': "App_handleImport P now' fresh ledger a = Inr a'" "data a' = ledger"
    by blast
  have t: "ExportImport_onload_try P now' fresh content a = Inr a'"
    using parsed acc nn a'
    by (simp add: ExportImport_onload_try_def get_prop_field import_accepts_def)
  with a' show ?thesis by (auto simp: ExportImport_onload_def)
qed

lemma downloads_exportToJSON:
  "downloads (exportToJSON P now ledger w) =
     downloads w @ [(''decoricks-finance-'' @ takeWhile (\<lambda>c. c \<noteq> CHR ''T'') now @ ''.json'',
                     JSON_stringify_pretty P ledger)]"
  by (simp add: exportToJSON_def downloads_def emit_def Let_def List.map_filter_def)

lemma ledger_accepted: "is_ledger (Some ledger) \<Longrightarrow> import_accepts ledger"
  by (elim is_ledger_shape) (simp add: import_accepts_def field_of_def)

lemma codec_platform_codec:
  "JSON_stringify_pretty codec_platform = json_stringify_pretty"
  "JSON_parse codec_platform = json_parse"
  by (simp_all add: codec_platform_def)

lemma downloads_fresh_world: "downloads fresh_world = []"
  by (simp add: downloads_def fresh_world_def List.map_filter_simps)

lemma null_ledger_faithful: "finite_numbers null_ledger" "representable null_ledger"
  by (simp_all add: null_ledger_def sample_categories_def)

lemma nan_ledger_text: "json_stringify_pretty nan_ledger = json_stringify_pretty null_ledger"
  by (simp add: json_stringify_pretty_def nan_ledger_def null_ledger_def)

lemma null_ledger_is_ledger: "is_ledger (Some null_ledger)" "is_ledger (Some nan_ledger)"
  by (simp_all add: is_ledger_def field_of_def null_ledger_def nan_ledger_def sample_categories_def)

text \<open>
  Claim C6, as amended. For every ledger whose numbers are all finite, the text that
  exportToJSON offers for download is read back by the import dialogue as the same ledger:
  it parses, it passes the validation of the import, and the ledger in memory after the
  import is the exported one, with the same transactions and the same categories in the
  same order. The platform is one whose indented \<^verbatim>\<open>JSON.stringify\<close> and whose
  \<^verbatim>\<open>JSON.parse\<close> are the codec of ECMAScript; the ledger is a value of the program
  (numbers that are decimal fractions, no key twice in an object).
\<close>

theorem json_export_import_roundtrip:
  assumes ledger: "is_ledger (Some ledger)"
      and finite: "finite_numbers ledger"
      and val: "representable ledger"
      and stringify: "JSON_stringify_pretty P = json_stringify_pretty"
      and parse: "JSON_parse P = json_parse"
  shows "\<exists>name content.
           downloads (exportToJSON P now ledger w) = downloads w @ [(name, content)] \<and>
           JSON_parse P content = Inr ledger \<and> import_accepts ledger \<and>
           (\<exists>a'. ExportImport_onload_try P now' fresh content a = Inr a' \<and> data a' = ledger) \<and>
           data (ExportImport_onload P now' fresh content a) = ledger"
proof -
  from ledger have acc: "import_accepts ledger" by (rule ledger_accepted)
  have p: "JSON_parse P (JSON_stringify_pretty P ledger) = Inr ledger"
    using json_parse_stringify [OF finite val] by (simp add: stringify parse)
  from import_of_parsed [OF p acc, of now' fresh a] p acc
    downloads_exportToJSON [of P now ledger w]
  show ?thesis by blast
qed

theorem json_export_import_roundtrip_witness:
  "is_ledger (Some sample_ledger) \<and> finite_numbers sample_ledger \<and> representable sample_ledger \<and>
   JSON_stringify_pretty codec_platform = json_stringify_pretty \<and>
   JSON_parse codec_platform = json_parse \<and>
   (\<exists>name content.
      downloads (exportToJSON codec_platform sample_now sample_ledger fresh_world) = [(name, content)] \<and>
      JSON_parse codec_platform content = Inr sample_ledger \<and>
      data (ExportImport_onload codec_platform sample_now ''n1'' content sample_app) = sample_ledger)"
proof -
  have f: "finite_numbers sample_ledger"
    by (simp add: sample_ledger_def sample_transactions_def sample_categories_def)
  have r: "representable sample_ledger"
    by code_simp
  from json_export_import_roundtrip [OF sample_is_ledger f r codec_platform_codec,
      of sample_now fresh_world sample_now "''n1''" sample_app]
  obtain name content where
    "downloads (exportToJSON codec_platform sample_now sample_ledger fresh_world) = [(name, content)]"
    "JSON_parse codec_platform content = Inr sample_ledger"
    "data (ExportImport_onload codec_platform sample_now ''n1'' content sample_app) = sample_ledger"
    by (auto simp: downloads_fresh_world)
  with sample_is_ledger f r codec_platform_codec show ?thesis by blast
qed

text \<open>
  Claim C6, as stated, fails for a ledger with a number that is not finite: the ledger
  \<open>nan_ledger\<close>, whose transaction has the amount \<^verbatim>\<open>NaN\<close>, is exported with
  \<^verbatim>\<open>null\<close> in the place of the amount; the import accepts the text, and the ledger in
  memory after it has the amount \<^verbatim>\<open>null\<close>: it is not the exported ledger.
\<close>

theorem json_export_import_nan_counterexample:
  "is_ledger (Some nan_ledger) \<and>
   downloads (exportToJSON codec_platform sample_now nan_ledger fresh_world) =
     [(''decoricks-finance-2024-02-01.json'', json_stringify_pretty nan_ledger)] \<and>
   JSON_parse codec_platform (json_stringify_pretty nan_ledger) = Inr null_ledger \<and>
   import_accepts null_ledger \<and>
   data (ExportImport_onload codec_platform sample_now ''n1'' (json_stringify_pretty nan_ledger) sample_app)
     = null_ledger \<and>
   null_ledger \<noteq> nan_ledger"
proof -
  have p: "JSON_parse codec_platform (json_stringify_pretty nan_ledger) = Inr null_ledger"
    using json_parse_stringify [OF null_ledger_faithful]
    by (simp add: codec_platform_codec nan_ledger_text)
  have acc: "import_accepts null_ledger"
    using null_ledger_is_ledger(1) by (rule ledger_accepted)
  have d: "downloads (exportToJSON codec_platform sample_now nan_ledger fresh_world) =
           [(''decoricks-finance-2024-02-01.json'', json_stringify_pretty nan_ledger)]"
    by (simp add: downloads_exportToJSON downloads_fresh_world codec_platform_codec sample_now_def)
  have ne: "null_ledger \<noteq> nan_ledger"
    by (simp add: null_ledger_def nan_ledger_def)
  from import_of_parsed [OF p acc, of sample_now "''n1''" sample_app] d p acc ne
    null_ledger_is_ledger(2)
  show ?thesis by blast
qed

section \<open>Properties of the notification log\<close>

lemma unshift_capped_take: "unshift_capped n ns = take 50 (n # ns)"
  by (simp add: unshift_capped_def Let_def)

lemma take_append_take: "take k (xs @ take k ys) = take k (xs @ ys)"
  by (simp add: min_def)

lemma append_all_take:
  "append_all entries ns = take 50 (rev (map entry_notification entries) @ ns)" if "length ns \<le> 50"
  using that
proof (induction entries arbitrary: ns)
  case Nil
  then show ?case by (simp add: append_all_def)
next
  case (Cons e es)
  have "append_all (e # es) ns = append_all es (take 50 (entry_notification e # ns))"
    by (simp add: append_all_def unshift_capped_take)
  also have "\<dots> = take 50 (rev (map entry_notification es) @ take 50 (entry_notification e # ns))"
    by (rule Cons.IH) simp
  also have "\<dots> = take 50 (rev (map entry_notification es) @ entry_notification e # ns)"
    by (rule take_append_take)
  finally show ?case by simp
qed

lemma getNotifications_after_save:
  assumes "parse_notifications P (stringify_notifications P ns) = Inr ns"
      and "stringify_notifications P ns \<noteq> []"
      and "\<not> quota_exceeded P Local NOTIFICATIONS_KEY (stringify_notifications P ns)"
  shows "fst (getNotifications P (saveNotifications P ns w)) = ns"
  using assms
  by (simp add: getNotifications_def saveNotifications_def setItem_def getItem_put present_def)

lemma getNotifications_emit [simp]: "fst (getNotifications P (emit e w)) = fst (getNotifications P w)"
  by (simp add: getNotifications_def split: option.splits sum.splits)

lemma saveNotifications_emit:
  "fst (getNotifications P (saveNotifications P ns (emit e w))) =
   fst (getNotifications P (saveNotifications P ns w))"
  by (auto simp: getNotifications_def saveNotifications_def setItem_def getItem_put console_error_def
      split: option.splits sum.splits)

lemma addNotification_log:
  assumes "\<And>ns. parse_notifications P (stringify_notifications P ns) = Inr ns \<and>
                stringify_notifications P ns \<noteq> [] \<and>
                \<not> quota_exceeded P Local NOTIFICATIONS_KEY (stringify_notifications P ns)"
  shows "fst (getNotifications P (addNotification P fresh now ttl msg kind w)) =
         unshift_capped (newNotification fresh now ttl msg kind) (fst (getNotifications P w))"
proof -
  obtain ns w1 where g: "getNotifications P w = (ns, w1)" by (cases "getNotifications P w")
  then have w1: "w1 = w \<or> w1 = console_error ''Error loading notifications:'' w"
    by (auto simp: getNotifications_def split: option.splits sum.splits)
  have "fst (getNotifications P (saveNotifications P xs w1)) = xs" for xs
    using w1 assms [of xs] getNotifications_after_save [of P xs]
    by (auto simp: console_error_def saveNotifications_emit)
  with g show ?thesis
    by (simp add: addNotification_def Let_def)
qed

lemma addNotifications_log:
  assumes "\<And>ns. parse_notifications P (stringify_notifications P ns) = Inr ns \<and>
                stringify_notifications P ns \<noteq> [] \<and>
                \<not> quota_exceeded P Local NOTIFICATIONS_KEY (stringify_notifications P ns)"
  shows "fst (getNotifications P (addNotifications P entries w)) =
         append_all entries (fst (getNotifications P w))"
proof (induction entries arbitrary: w)
  case Nil
  show ?case by (simp add: addNotifications_def append_all_def)
next
  case (Cons e es)
  obtain fresh now ttl msg kind where e: "e = (fresh, now, ttl, msg, kind)"
    by (cases e)
  have "addNotifications P (e # es) w = addNotifications P es (addNotification P fresh now ttl msg kind w)"
    by (simp add: addNotifications_def e)
  moreover have "append_all (e # es) ns = append_all es (unshift_capped (newNotification fresh now ttl msg kind) ns)" for ns
    by (simp add: append_all_def e entry_notification_def)
  ultimately show ?case
    using Cons.IH [of "addNotification P fresh now ttl msg kind w"] addNotification_log [OF assms]
    by simp
qed

text \<open>
  Claim C5. For every log and every append, the log that addNotification saves has the new
  entry first, unread, and has at most 50 entries: it is the first 50 of the new entry
  followed by the old log. This is the text that the notification key holds afterwards
  when the storage accepts the write. With a storage that accepts the writes of the log
  and a codec that reads back the logs it writes, calls of addNotification one after the
  other, from an empty log, leave the last 50 of the appended entries, the most recent
  first; sixty calls leave the entries 11 to 60.
\<close>

theorem addNotification_prepends_and_caps:
  "(let n = newNotification fresh now ttl msg kind; after = unshift_capped n ns
    in after = take 50 (n # ns) \<and> hd after = n \<and> after \<noteq> [] \<and> \<not> read (hd after) \<and>
       length after \<le> 50) \<and>
   (let after = unshift_capped (newNotification fresh now ttl msg kind) (fst (getNotifications P w))
    in \<not> quota_exceeded P Local NOTIFICATIONS_KEY (stringify_notifications P after) \<longrightarrow>
       getItem Local NOTIFICATIONS_KEY (addNotification P fresh now ttl msg kind w) =
         Some (stringify_notifications P after)) \<and>
   ((\<forall>log. parse_notifications P (stringify_notifications P log) = Inr log \<and>
           stringify_notifications P log \<noteq> [] \<and>
           \<not> quota_exceeded P Local NOTIFICATIONS_KEY (stringify_notifications P log)) \<and>
    fst (getNotifications P w) = [] \<longrightarrow>
      fst (getNotifications P (addNotifications P entries w)) =
        take 50 (rev (map entry_notification entries)) \<and>
      (length entries = 60 \<longrightarrow>
         fst (getNotifications P (addNotifications P entries w)) =
           rev (map entry_notification (drop 10 entries)) \<and>
         length (fst (getNotifications P (addNotifications P entries w))) = 50))"
proof -
  have a: "append_all entries [] = take 50 (rev (map entry_notification entries))"
    using append_all_take [of "[]" entries] by simp
  have b: "take 50 (rev (map entry_notification entries)) = rev (map entry_notification (drop 10 entries))"
    if "length entries = 60"
    using that by (simp add: take_rev drop_map)
  have c: "getItem Local NOTIFICATIONS_KEY (addNotification P fresh now ttl msg kind w) =
            Some (stringify_notifications P (unshift_capped (newNotification fresh now ttl msg kind) (fst (getNotifications P w))))"
    if "\<not> quota_exceeded P Local NOTIFICATIONS_KEY (stringify_notifications P (unshift_capped (newNotification fresh now ttl msg kind) (fst (getNotifications P w))))"
    using that
    by (auto simp: addNotification_def saveNotifications_def setItem_def getItem_put
        getNotifications_def Let_def console_error_def split: option.splits sum.splits prod.splits)
  have d: "fst (getNotifications P (addNotifications P entries w)) =
             take 50 (rev (map entry_notification entries))"
    if "\<forall>log. parse_notifications P (stringify_notifications P log) = Inr log \<and>
           stringify_notifications P log \<noteq> [] \<and>
           \<not> quota_exceeded P Local NOTIFICATIONS_KEY (stringify_notifications P log)"
      and "fst (getNotifications P w) = []"
    using that addNotifications_log [of P entries w] a by simp
  show ?thesis
    using b c d by (simp add: Let_def unshift_capped_take newNotification_def)
qed

lemma takeWhile_replicate_stop:
  "b \<noteq> a \<Longrightarrow> takeWhile (\<lambda>c. c = a) (replicate n a @ b # ys) = replicate n a"
  by (induction n) simp_all

lemma read_write_text: "read_text (write_text s @ r) = (s, r)"
  by (simp add: read_text_def write_text_def Let_def takeWhile_replicate_stop)

lemma read_write_type: "read_type (write_type t) = t"
  by (cases t) (simp_all add: read_type_def write_type_def)

lemma read_write_notification: "read_notification (write_notification n @ r) = (n, r)"
  by (simp add: read_notification_def write_notification_def read_write_text read_write_type)

lemma read_write_log: "length ns < k \<Longrightarrow> read_log k (write_log ns) = Some ns"
proof (induction ns arbitrary: k)
  case Nil
  then show ?case by (cases k) (simp_all add: write_log_def)
next
  case (Cons n ns)
  then obtain k' where k: "k = Suc k'" "length ns < k'" by (cases k) auto
  have "write_log (n # ns) = CHR ''E'' # write_notification n @ write_log ns"
    by (simp add: write_log_def)
  with k Cons.IH [of k'] show ?case
    by (simp add: read_write_notification)
qed

lemma length_write_log: "length ns < length (write_log ns)"
  by (induction ns) (simp_all add: write_log_def)

lemma parse_write_log: "parse_log (write_log ns) = Inr ns"
  by (simp add: parse_log_def read_write_log length_write_log)

lemma write_log_nonempty: "write_log ns \<noteq> []"
  by (simp add: write_log_def)

lemma log_platform_faithful:
  "parse_notifications log_platform (stringify_notifications log_platform ns) = Inr ns \<and>
   stringify_notifications log_platform ns \<noteq> [] \<and>
   \<not> quota_exceeded log_platform Local NOTIFICATIONS_KEY (stringify_notifications log_platform ns)"
  by (simp add: log_platform_def parse_write_log write_log_nonempty sample_platform_def)

lemma length_sample_entries: "length sample_entries = 60"
  by (simp add: sample_entries_def)

theorem addNotification_prepends_and_caps_witness:
  "\<not> quota_exceeded sample_platform Local NOTIFICATIONS_KEY ''<log>'' \<and>
   fst (getNotifications sample_platform log_world) = [sample_notification] \<and>
   getItem Local NOTIFICATIONS_KEY
     (addNotification sample_platform ''n1'' sample_now ''Data Exported'' ''Done'' Success log_world) =
     Some ''<log>'' \<and>
   unshift_capped (newNotification ''n1'' sample_now ''Data Exported'' ''Done'' Success) [sample_notification] =
     [newNotification ''n1'' sample_now ''Data Exported'' ''Done'' Success, sample_notification] \<and>
   (\<forall>ns. parse_notifications log_platform (stringify_notifications log_platform ns) = Inr ns \<and>
         stringify_notifications log_platform ns \<noteq> [] \<and>
         \<not> quota_exceeded log_platform Local NOTIFICATIONS_KEY (stringify_notifications log_platform ns)) \<and>
   fst (getNotifications log_platform fresh_world) = [] \<and>
   length sample_entries = 60 \<and>
   fst (getNotifications log_platform (addNotifications log_platform sample_entries fresh_world)) =
     rev (map entry_notification (drop 10 sample_entries)) \<and>
   length (fst (getNotifications log_platform (addNotifications log_platform sample_entries fresh_world))) = 50"
proof -
  have g: "fst (getNotifications sample_platform log_world) = [sample_notification]"
    by (simp add: getNotifications_def present_def getItem_def log_world_def sample_platform_def)
  have q: "\<not> quota_exceeded sample_platform Local NOTIFICATIONS_KEY ''<log>''"
    by (simp add: sample_platform_def)
  have s: "stringify_notifications sample_platform = (\<lambda>ns. ''<log>'')"
    by (simp add: sample_platform_def)
  note t = addNotification_prepends_and_caps [where fresh = "''n1''" and now = sample_now
        and ttl = "''Data Exported''" and msg = "''Done''" and kind = Success
        and ns = "[sample_notification]" and P = sample_platform and w = log_world
        and entries = sample_entries, unfolded Let_def s g]
  from t have u: "unshift_capped (newNotification ''n1'' sample_now ''Data Exported'' ''Done'' Success)
       [sample_notification] =
     [newNotification ''n1'' sample_now ''Data Exported'' ''Done'' Success, sample_notification]"
    by simp
  from t q have v: "getItem Local NOTIFICATIONS_KEY
     (addNotification sample_platform ''n1'' sample_now ''Data Exported'' ''Done'' Success log_world) =
     Some ''<log>''"
    by blast
  have f: "\<forall>ns. parse_notifications log_platform (stringify_notifications log_platform ns) = Inr ns \<and>
         stringify_notifications log_platform ns \<noteq> [] \<and>
         \<not> quota_exceeded log_platform Local NOTIFICATIONS_KEY (stringify_notifications log_platform ns)"
    using log_platform_faithful by blast
  have e: "fst (getNotifications log_platform fresh_world) = []"
    by (simp add: getNotifications_def present_def getItem_def fresh_world_def)
  from addNotification_prepends_and_caps [where P = log_platform and w = fresh_world
        and entries = sample_entries] f e length_sample_entries
  have x: "fst (getNotifications log_platform (addNotifications log_platform sample_entries fresh_world)) =
     rev (map entry_notification (drop 10 sample_entries))"
    and y: "length (fst (getNotifications log_platform (addNotifications log_platform sample_entries fresh_world))) = 50"
    by blast+
  from g q u v f e length_sample_entries x y show ?thesis by blast
qed

section \<open>Properties of the auto-export scheduler\<close>

text \<open>
  Claim C8. For every persisted settings record and every present time, shouldAutoDownload
  is true exactly when auto-export is enabled and either no export time is recorded or the
  time since the recorded export is at least the configured interval.
\<close>

theorem shouldAutoDownload_iff_due:
  assumes "present (getItem Local AUTO_DOWNLOAD_KEY w) = Some stored"
      and "parse_settings P stored = Inr settings"
  shows "fst (shouldAutoDownload P now_ms w) \<longleftrightarrow>
           enabled settings \<and>
           (lastDownload settings = [] \<or>
            (case Date_getTime P (lastDownload settings) of
               None \<Rightarrow> False
             | Some t \<Rightarrow> now_ms - t \<ge> downloadInterval settings))"
  using assms
  by (simp add: shouldAutoDownload_def getAutoDownloadSettings_def Let_def split: option.splits)

theorem shouldAutoDownload_iff_due_witness:
  "present (getItem Local AUTO_DOWNLOAD_KEY settings_world) = Some ''<settings>'' \<and>
   parse_settings sample_platform ''<settings>'' = Inr sample_settings \<and>
   fst (shouldAutoDownload sample_platform 1706788800000 settings_world) \<and>
   \<not> fst (shouldAutoDownload sample_platform 1704448801000 settings_world)"
proof -
  have a: "present (getItem Local AUTO_DOWNLOAD_KEY settings_world) = Some ''<settings>''"
    by (simp add: present_def getItem_def settings_world_def)
  have b: "parse_settings sample_platform ''<settings>'' = Inr sample_settings"
    by (simp add: sample_platform_def)
  show ?thesis
    using a b shouldAutoDownload_iff_due [OF a b, of 1706788800000]
      shouldAutoDownload_iff_due [OF a b, of 1704448801000]
    by (simp add: sample_settings_def sample_platform_def)
qed

text \<open>
  Claim C10. When no settings record is persisted, or the persisted text does not parse,
  the settings read are: enabled, no export time, an interval of 7 days, format JSON; and
  shouldAutoDownload is true.
\<close>

theorem auto_export_defaults:
  assumes "case present (getItem Local AUTO_DOWNLOAD_KEY w) of
             None \<Rightarrow> True | Some stored \<Rightarrow> isl (parse_settings P stored)"
  shows "fst (getAutoDownloadSettings P w) =
           \<lparr>enabled = True, lastDownload = [], downloadInterval = 7 * 24 * 60 * 60 * 1000, format = Json\<rparr> \<and>
         fst (shouldAutoDownload P now_ms w)"
  using assms
  by (auto simp: shouldAutoDownload_def getAutoDownloadSettings_def Let_def WEEK_IN_MS_def isl_def
      split: option.splits sum.splits)

theorem auto_export_defaults_witness:
  "present (getItem Local AUTO_DOWNLOAD_KEY fresh_world) = None \<and>
   fst (getAutoDownloadSettings sample_platform fresh_world) =
     \<lparr>enabled = True, lastDownload = [], downloadInterval = 604800000, format = Json\<rparr> \<and>
   fst (shouldAutoDownload sample_platform sample_now_ms fresh_world) \<and>
   present (getItem Local AUTO_DOWNLOAD_KEY garbled_settings_world) = Some ''{enabled:'' \<and>
   isl (parse_settings sample_platform ''{enabled:'') \<and>
   fst (getAutoDownloadSettings sample_platform garbled_settings_world) =
     \<lparr>enabled = True, lastDownload = [], downloadInterval = 604800000, format = Json\<rparr> \<and>
   fst (shouldAutoDownload sample_platform sample_now_ms garbled_settings_world)"
proof -
  have a: "present (getItem Local AUTO_DOWNLOAD_KEY fresh_world) = None"
    by (simp add: present_def getItem_def fresh_world_def)
  have b: "present (getItem Local AUTO_DOWNLOAD_KEY garbled_settings_world) = Some ''{enabled:''"
    by (simp add: present_def getItem_def garbled_settings_world_def)
  have c: "isl (parse_settings sample_platform ''{enabled:'')"
    by (simp add: sample_platform_def)
  have a': "case present (getItem Local AUTO_DOWNLOAD_KEY fresh_world) of
             None \<Rightarrow> True | Some stored \<Rightarrow> isl (parse_settings sample_platform stored)"
    using a by simp
  have b': "case present (getItem Local AUTO_DOWNLOAD_KEY garbled_settings_world) of
             None \<Rightarrow> True | Some stored \<Rightarrow> isl (parse_settings sample_platform stored)"
    using b c by simp
  show ?thesis
    using a b c auto_export_defaults [OF a', of sample_now_ms] auto_export_defaults [OF b', of sample_now_ms]
    by simp
qed

section \<open>Properties of the usage tracker\<close>

text \<open>
  Claim C9, as amended. For every persisted usage record and every present time,
  initializeSession counts a new session and sets the session start to the present time
  exactly when a last activity is recorded and more than 30 minutes have passed since;
  otherwise, also when no last activity is recorded, the counter and the session start
  stay as they are. In both cases the last activity becomes the present time, and the
  record is what the tracking key holds afterwards when the storage accepts the write.
\<close>

theorem initializeSession_counts_new_session:
  assumes "present (getItem Local LIVE_TRACKING_KEY w) = Some stored"
      and "parse_tracking P stored = Inr tracking"
      and "\<not> quota_exceeded P Local LIVE_TRACKING_KEY
             (stringify_tracking P (after_session_check P now now_ms tracking))"
  shows "getItem Local LIVE_TRACKING_KEY (initializeSession P now now_ms w) =
           Some (stringify_tracking P (after_session_check P now now_ms tracking)) \<and>
         totalSessions (after_session_check P now now_ms tracking) =
           (if idle_too_long P now_ms tracking then totalSessions tracking + 1 else totalSessions tracking) \<and>
         sessionStart (after_session_check P now now_ms tracking) =
           (if idle_too_long P now_ms tracking then now else sessionStart tracking) \<and>
         lastActivity (after_session_check P now now_ms tracking) = now \<and>
         (lastActivity tracking = [] \<longrightarrow> \<not> idle_too_long P now_ms tracking)"
proof -
  have "initializeSession_update P now now_ms tracking = after_session_check P now now_ms tracking"
    by (simp add: initializeSession_update_def after_session_check_def idle_too_long_def Let_def
        split: option.splits)
  with assms show ?thesis
    by (simp add: initializeSession_def getLiveTrackingData_def saveLiveTrackingData_def
        setItem_def getItem_put Let_def after_session_check_def idle_too_long_def)
qed

theorem initializeSession_counts_new_session_witness:
  "present (getItem Local LIVE_TRACKING_KEY tracking_world) = Some ''<tracking>'' \<and>
   parse_tracking sample_platform ''<tracking>'' = Inr sample_tracking \<and>
   idle_too_long sample_platform sample_now_ms sample_tracking \<and>
   totalSessions (after_session_check sample_platform sample_now sample_now_ms sample_tracking) = 4 \<and>
   getItem Local LIVE_TRACKING_KEY (initializeSession sample_platform sample_now sample_now_ms tracking_world) =
     Some ''<tracking, 4 sessions>'' \<and>
   \<not> idle_too_long sample_platform 1704448860000 sample_tracking \<and>
   totalSessions (after_session_check sample_platform sample_now 1704448860000 sample_tracking) = 3 \<and>
   getItem Local LIVE_TRACKING_KEY (initializeSession sample_platform sample_now 1704448860000 tracking_world) =
     Some ''<tracking>''"
proof -
  have a: "present (getItem Local LIVE_TRACKING_KEY tracking_world) = Some ''<tracking>''"
    by (simp add: present_def getItem_def tracking_world_def)
  have b: "parse_tracking sample_platform ''<tracking>'' = Inr sample_tracking"
    by (simp add: sample_platform_def)
  have q: "\<not> quota_exceeded sample_platform Local LIVE_TRACKING_KEY v" for v
    by (simp add: sample_platform_def)
  have i1: "idle_too_long sample_platform sample_now_ms sample_tracking"
    and i2: "\<not> idle_too_long sample_platform 1704448860000 sample_tracking"
    by (simp_all add: idle_too_long_def sample_platform_def sample_tracking_def sample_now_ms_def)
  have e1: "after_session_check sample_platform sample_now sample_now_ms sample_tracking =
            sample_tracking\<lparr>totalSessions := totalSessions sample_tracking + 1,
              sessionStart := sample_now, lastActivity := sample_now\<rparr>"
    using i1 by (simp add: after_session_check_def)
  have e2: "after_session_check sample_platform sample_now 1704448860000 sample_tracking =
            sample_tracking\<lparr>lastActivity := sample_now\<rparr>"
    using i2 by (simp add: after_session_check_def)
  have s1: "stringify_tracking sample_platform
              (after_session_check sample_platform sample_now sample_now_ms sample_tracking) =
            ''<tracking, 4 sessions>''"
    unfolding e1 by (simp add: sample_platform_def sample_tracking_def idle_tracking_def sample_now_def)
  have s2: "stringify_tracking sample_platform
              (after_session_check sample_platform sample_now 1704448860000 sample_tracking) =
            ''<tracking>''"
    unfolding e2 by (simp add: sample_platform_def sample_tracking_def idle_tracking_def sample_now_def)
  have t1: "totalSessions (after_session_check sample_platform sample_now sample_now_ms sample_tracking) = 4"
    unfolding e1 by (simp add: sample_tracking_def)
  have t2: "totalSessions (after_session_check sample_platform sample_now 1704448860000 sample_tracking) = 3"
    unfolding e2 by (simp add: sample_tracking_def)
  show ?thesis
    using a b i1 i2 t1 t2
      initializeSession_counts_new_session [OF a b q, of sample_now sample_now_ms]
      initializeSession_counts_new_session [OF a b q, of sample_now 1704448860000]
    unfolding s1 s2 by blast
qed

text \<open>
  Claim C9, as stated, fails for a persisted record without a last activity: the claim has
  the session counter incremented and the session start reset, and initializeSession
  leaves both as they are (three sessions before, three after).
\<close>

theorem initializeSession_no_activity_counterexample:
  "lastActivity idle_tracking = [] \<and>
   fst (getLiveTrackingData sample_platform sample_now idle_world) = idle_tracking \<and>
   totalSessions idle_tracking = 3 \<and>
   totalSessions (initializeSession_update sample_platform sample_now sample_now_ms idle_tracking) = 3 \<and>
   sessionStart (initializeSession_update sample_platform sample_now sample_now_ms idle_tracking) =
     sessionStart idle_tracking \<and>
   getItem Local LIVE_TRACKING_KEY (initializeSession sample_platform sample_now sample_now_ms idle_world) =
     Some (stringify_tracking sample_platform (idle_tracking\<lparr>lastActivity := sample_now\<rparr>))"
  by (simp add: initializeSession_def initializeSession_update_def getLiveTrackingData_def
      saveLiveTrackingData_def setItem_def put_def Let_def present_def getItem_def
      idle_world_def idle_tracking_def sample_tracking_def sample_platform_def sample_now_def)


end
